theory Spec2Isabelle
  imports Main
begin

section \<open>JavaScript values and the operators the scripts use\<close>

text \<open>
  The map entry point receives one search result as JSON text and parses it. The platform
  writes every column of a search result as a string or as an object
  \<^verbatim>\<open>{value, text}\<close> of strings, so the values a row can hold are built from
  \<^verbatim>\<open>null\<close>, strings and objects; JSON numbers, booleans and arrays do not occur
  in a row and are left out of the type. \<open>JUndefined\<close> is what reading a missing property
  gives.
\<close>

datatype jsval = JUndefined | JNull | JStr string | JObj "(string \<times> jsval) list"

text \<open>
  A thrown value. The text of a language-level error depends on the engine, so the model
  keeps the error itself where the scripts log \<^verbatim>\<open>e.message\<close>.
\<close>

datatype exn = SyntaxError | TypeError | ReferenceError string | HostError string

text \<open>\<^verbatim>\<open>JSON.parse(context.value)\<close>: the text is given by what parsing it yields.\<close>

datatype json_text = NotJSON | JSON jsval

fun JSON_parse :: "json_text \<Rightarrow> exn + jsval" where
  "JSON_parse NotJSON = Inl SyntaxError"
| "JSON_parse (JSON v) = Inr v"

text \<open>
  \<^verbatim>\<open>v.k\<close> for the property names the scripts read (none of them is a property of
  a string primitive or of \<^verbatim>\<open>Object.prototype\<close>).
\<close>

fun getProp :: "jsval \<Rightarrow> string \<Rightarrow> exn + jsval" where
  "getProp JUndefined k = Inl TypeError"
| "getProp JNull k = Inl TypeError"
| "getProp (JStr s) k = Inr JUndefined"
| "getProp (JObj fs) k = Inr (case map_of fs k of None \<Rightarrow> JUndefined | Some v \<Rightarrow> v)"

text \<open>\<^verbatim>\<open>v?.k\<close>\<close>

fun optProp :: "jsval \<Rightarrow> string \<Rightarrow> exn + jsval" where
  "optProp JUndefined k = Inr JUndefined"
| "optProp JNull k = Inr JUndefined"
| "optProp v k = getProp v k"

fun truthy :: "jsval \<Rightarrow> bool" where
  "truthy JUndefined = False"
| "truthy JNull = False"
| "truthy (JStr s) = (s \<noteq> [])"
| "truthy (JObj fs) = True"

text \<open>\<^verbatim>\<open>v || d\<close>\<close>

definition orElse :: "jsval \<Rightarrow> jsval \<Rightarrow> jsval" where
  "orElse v d = (if truthy v then v else d)"

text \<open>
  \<^verbatim>\<open>v.includes(',')\<close>: a string has the method; on an object parsed from JSON
  the property is missing or is data, and the call throws; on \<^verbatim>\<open>undefined\<close> the
  property read throws.
\<close>

fun includes_comma :: "jsval \<Rightarrow> exn + bool" where
  "includes_comma (JStr s) = Inr (CHR '','' \<in> set s)"
| "includes_comma v = Inl TypeError"

text \<open>The conversion a template literal applies to \<^verbatim>\<open>${v}\<close>.\<close>

fun toStr :: "jsval \<Rightarrow> string" where
  "toStr JUndefined = ''undefined''"
| "toStr JNull = ''null''"
| "toStr (JStr s) = s"
| "toStr (JObj fs) = ''[object Object]''"

text \<open>\<^verbatim>\<open>xs.join(sep)\<close> on an array of strings.\<close>

fun join :: "string \<Rightarrow> string list \<Rightarrow> string" where
  "join sep [] = []"
| "join sep [x] = x"
| "join sep (x # y # ys) = x @ sep @ join sep (y # ys)"

section \<open>The platform: services, log and trace\<close>

datatype level = Audit | Error | Debug

text \<open>The details of a log entry: a text, \<^verbatim>\<open>e.message\<close>, or
  \<^verbatim>\<open>`${context.key}: ${e.message}`\<close>.\<close>

datatype details = Text string | Message exn | KeyMessage string exn

datatype file_type = CSV

record file_options =
  name :: string
  fileType :: file_type
  contents :: string
  folder :: int

text \<open>An identifier handed to a platform service: the number \<^verbatim>\<open>-5\<close> or a
  value taken from the data.\<close>

datatype idval = IdNum int | IdVal jsval

record email_options =
  author :: int
  recipients :: idval
  subject :: string
  body :: string
  attachments :: "file_options list"

datatype record_type = EMPLOYEE | CUSTOMER

record lookup_options =
  type_opt :: record_type
  id_opt :: idval
  columns :: "string list"

text \<open>The object \<^verbatim>\<open>search.lookupFields\<close> returns, by the properties the
  scripts read: \<^verbatim>\<open>entityid\<close> and \<^verbatim>\<open>email\<close>, and
  \<^verbatim>\<open>salesrep\<close> and \<^verbatim>\<open>entity\<close> (an array each, or missing).\<close>

record lookup_result =
  entityid :: jsval
  salesrep :: "jsval list option"
  entity :: "jsval list option"
  email :: jsval

text \<open>
  Every call of a platform service is recorded with its outcome (\<open>None\<close>: it returned,
  \<open>Some e\<close>: it threw \<open>e\<close>), next to the log entries and the pairs written by map.
\<close>

datatype event =
    Log level string details
  | Write jsval string
  | FileCreate file_options "exn option"
  | FileSave file_options "exn option"
  | FileLoad int "exn option"
  | EmailSend email_options "exn option"
  | LookupFields lookup_options "exn option"

text \<open>
  The services are outside the repository. Each takes its argument and the state of the
  world \<open>'w\<close>, returns or throws, and leaves a new state; nothing else is assumed of them.
\<close>

record 'w platform =
  getMonth :: "'w \<Rightarrow> nat"
  file_create :: "file_options \<Rightarrow> 'w \<Rightarrow> (exn + file_options) \<times> 'w"
  file_save :: "file_options \<Rightarrow> 'w \<Rightarrow> (exn + int) \<times> 'w"
  file_load :: "int \<Rightarrow> 'w \<Rightarrow> (exn + file_options) \<times> 'w"
  email_send :: "email_options \<Rightarrow> 'w \<Rightarrow> (exn + unit) \<times> 'w"
  lookupFields :: "lookup_options \<Rightarrow> 'w \<Rightarrow> (exn + lookup_result) \<times> 'w"

text \<open>A statement sequence: from the world and the trace so far to a result or a thrown
  value, with the world and the trace it leaves.\<close>

type_synonym ('w, 'a) prog = "'w \<times> event list \<Rightarrow> (exn + 'a) \<times> ('w \<times> event list)"

definition ret :: "'a \<Rightarrow> ('w, 'a) prog" where
  "ret x s = (Inr x, s)"

definition lift :: "exn + 'a \<Rightarrow> ('w, 'a) prog" where
  "lift r s = (r, s)"

definition andThen :: "('w, 'a) prog \<Rightarrow> ('a \<Rightarrow> ('w, 'b) prog) \<Rightarrow> ('w, 'b) prog" where
  "andThen m f s = (case m s of (Inl e, s') \<Rightarrow> (Inl e, s') | (Inr x, s') \<Rightarrow> f x s')"

text \<open>\<^verbatim>\<open>try { m } catch (e) { h e }\<close>\<close>

definition tryCatch :: "('w, 'a) prog \<Rightarrow> (exn \<Rightarrow> ('w, 'a) prog) \<Rightarrow> ('w, 'a) prog" where
  "tryCatch m h s = (case m s of (Inl e, s') \<Rightarrow> h e s' | (Inr x, s') \<Rightarrow> (Inr x, s'))"

text \<open>
  A log entry or a pair handed to \<^verbatim>\<open>context.write\<close> goes into the trace; the
  log and \<^verbatim>\<open>context.write\<close> are taken to return.
\<close>

definition emit :: "event \<Rightarrow> ('w, unit) prog" where
  "emit ev s = (Inr (), (fst s, snd s @ [ev]))"

fun thrown :: "exn + 'a \<Rightarrow> exn option" where
  "thrown (Inl e) = Some e"
| "thrown (Inr x) = None"

definition call :: "('x \<Rightarrow> 'w \<Rightarrow> (exn + 'a) \<times> 'w) \<Rightarrow> ('x \<Rightarrow> exn option \<Rightarrow> event) \<Rightarrow> 'x \<Rightarrow> ('w, 'a) prog" where
  "call svc ev x s =
     (case svc x (fst s) of (r, w') \<Rightarrow> (r, (w', snd s @ [ev x (thrown r)])))"

text \<open>\<^verbatim>\<open>new Date().getMonth()\<close>\<close>

definition today_getMonth :: "'w platform \<Rightarrow> ('w, nat) prog" where
  "today_getMonth P s = (Inr (getMonth P (fst s)), s)"

text \<open>
  The job runner calls an entry point once for each element, in order. It is the
  platform's; the runner here is the least forgiving one: a thrown value that escapes an
  entry point ends the run.
\<close>

fun forEach :: "('c \<Rightarrow> ('w, unit) prog) \<Rightarrow> 'c list \<Rightarrow> ('w, unit) prog" where
  "forEach f [] = ret ()"
| "forEach f (c # cs) = andThen (f c) (\<lambda>_. forEach f cs)"

section \<open>\<^verbatim>\<open>_jj_mr_email_salesrep_salesinfo.js\<close>\<close>

subsection \<open>map\<close>

record line_item =
  customerName :: jsval
  customerEmail :: jsval
  docNumber :: jsval
  amount :: jsval
  salesRepId :: jsval

definition bindE :: "exn + 'a \<Rightarrow> ('a \<Rightarrow> exn + 'b) \<Rightarrow> exn + 'b" where
  "bindE r f = (case r of Inl e \<Rightarrow> Inl e | Inr x \<Rightarrow> f x)"

text \<open>Lines 44 to 48: the five variables, each with its default.\<close>

definition normalize_salesinfo :: "jsval \<Rightarrow> exn + line_item" where
  "normalize_salesinfo data =
     bindE (getProp data ''entity'') (\<lambda>data_entity.
     bindE (optProp data_entity ''text'') (\<lambda>entity_text.
     bindE (getProp data ''email'') (\<lambda>data_email.
     bindE (getProp data ''tranid'') (\<lambda>data_tranid.
     bindE (getProp data ''amount'') (\<lambda>data_amount.
     bindE (getProp data ''salesrep'') (\<lambda>data_salesrep.
     bindE (optProp data_salesrep ''value'') (\<lambda>salesrep_value.
       Inr \<lparr> customerName = orElse entity_text (JStr ''Unknown''),
             customerEmail = orElse data_email (JStr ''No Email''),
             docNumber = orElse data_tranid (JStr ''Null''),
             amount = orElse data_amount (JStr ''0.00''),
             salesRepId = orElse salesrep_value (JStr ''Unassigned'') \<rparr>)))))))"

text \<open>Lines 50 and 51, the same statement for two variables:
  \<^verbatim>\<open>if (x.includes(',')) x = `"${x}"`\<close>.\<close>

definition quoted :: "string \<Rightarrow> string" where
  \<open>quoted s = ''"'' @ s @ ''"''\<close>

definition quoteIfComma :: "jsval \<Rightarrow> exn + jsval" where
  "quoteIfComma x =
     bindE (includes_comma x) (\<lambda>b. Inr (if b then JStr (quoted (toStr x)) else x))"

text \<open>Line 53.\<close>

definition csvLine :: "jsval \<Rightarrow> jsval \<Rightarrow> jsval \<Rightarrow> jsval \<Rightarrow> string" where
  "csvLine cName cEmail dNumber amt =
     toStr cName @ '','' @ toStr cEmail @ '','' @ toStr dNumber @ '','' @ toStr amt"

text \<open>Lines 43 to 53: the key and the line that line 54 writes, or the thrown value.\<close>

definition map_pair :: "json_text \<Rightarrow> exn + (jsval \<times> string)" where
  "map_pair context_value =
     bindE (JSON_parse context_value) (\<lambda>parsed.
     bindE (getProp parsed ''values'') (\<lambda>data.
     bindE (normalize_salesinfo data) (\<lambda>item.
     bindE (quoteIfComma (customerName item)) (\<lambda>customerName'.
     bindE (quoteIfComma (customerEmail item)) (\<lambda>customerEmail'.
       Inr (salesRepId item, csvLine customerName' customerEmail' (docNumber item) (amount item)))))))"

definition map_salesinfo :: "json_text \<Rightarrow> ('w, unit) prog" where
  "map_salesinfo context_value =
     tryCatch
       (andThen (lift (map_pair context_value)) (\<lambda>(k, v). emit (Write k v)))
       (\<lambda>e. emit (Log Error ''Map error'' (Message e)))"

subsection \<open>reduce\<close>

record reduce_context =
  context_key :: string
  context_values :: "string list"

definition monthNames :: "string list" where
  "monthNames = [''January'', ''February'', ''March'', ''April'', ''May'', ''June'', ''July'',
     ''August'', ''September'', ''October'', ''November'', ''December'']"

text \<open>\<^verbatim>\<open>new Date(today.getFullYear(), today.getMonth() - 1).getMonth()\<close>: the month
  before, December before January.\<close>

definition lastMonth_getMonth :: "nat \<Rightarrow> nat" where
  "lastMonth_getMonth m = (m + 11) mod 12"

definition header :: string where
  "header = ''Customer Name,Customer Email,Document Number,Sales Amount''"

text \<open>Line 69.\<close>

definition csvContent :: "string list \<Rightarrow> string" where
  "csvContent allLines = header @ ''\<newline>'' @ join ''\<newline>'' allLines"

definition csvFile_options :: "string \<Rightarrow> string \<Rightarrow> string list \<Rightarrow> file_options" where
  "csvFile_options salesRep monthName allLines =
     \<lparr> name = ''Sales_Report_'' @ salesRep @ ''_'' @ monthName @ ''.csv'',
       fileType = CSV,
       contents = csvContent allLines,
       folder = 624 \<rparr>"

text \<open>Lines 79 to 86 and the argument of \<^verbatim>\<open>email.send\<close>.\<close>

definition message :: "string \<Rightarrow> string \<Rightarrow> file_options \<Rightarrow> email_options" where
  "message salesRep monthName csvFile =
     (let isUnassigned = (salesRep = ''Unassigned'') in
      \<lparr> author = - 5,
        recipients = (if isUnassigned then IdNum (- 5) else IdVal (JStr salesRep)),
        subject = (if isUnassigned then ''Unassigned Sales - '' @ monthName
                   else ''Your Sales Report - '' @ monthName),
        body = (if isUnassigned
                then ''Hi,\<newline>\<newline>Please assign sales reps to these customers.\<newline>\<newline>See attached CSV.\<newline>\<newline>Thank you.''
                else ''Hi,\<newline>\<newline>Your monthly sales report for '' @ monthName @ '' is attached.\<newline>\<newline>Thank you.''),
        attachments = [csvFile] \<rparr>)"

text \<open>Lines 88 to 99.\<close>

definition deliver :: "'w platform \<Rightarrow> string \<Rightarrow> string \<Rightarrow> file_options \<Rightarrow> ('w, unit) prog" where
  "deliver P salesRep monthName csvFile =
     tryCatch
       (andThen (call (email_send P) EmailSend (message salesRep monthName csvFile)) (\<lambda>_.
          emit (Log Audit ''Email sent''
            (Text (if salesRep = ''Unassigned'' then ''To admin''
                   else ''To sales rep '' @ salesRep)))))
       (\<lambda>e. emit (Log Audit ''Email skipped''
            (Text (''Sales rep '' @ salesRep @ '' has no email or cannot receive messages.''))))"

text \<open>Lines 62 to 99.\<close>

definition reduce_body :: "'w platform \<Rightarrow> reduce_context \<Rightarrow> ('w, unit) prog" where
  "reduce_body P ctx =
     (let salesRep = context_key ctx; allLines = context_values ctx in
      andThen (today_getMonth P) (\<lambda>today_month.
      let monthName = monthNames ! lastMonth_getMonth today_month in
      andThen (call (file_create P) FileCreate (csvFile_options salesRep monthName allLines)) (\<lambda>csvFile.
      andThen (call (file_save P) FileSave csvFile) (\<lambda>_.
        deliver P salesRep monthName csvFile))))"

definition reduce_salesinfo :: "'w platform \<Rightarrow> reduce_context \<Rightarrow> ('w, unit) prog" where
  "reduce_salesinfo P ctx =
     tryCatch (reduce_body P ctx)
       (\<lambda>e. emit (Log Error ''Reduce error'' (KeyMessage (context_key ctx) e)))"

section \<open>Version 1.0 (\<^verbatim>\<open>src/unnamed/part_000\<close>)\<close>

subsection \<open>map\<close>

text \<open>Lines 66 to 70.\<close>

definition normalize_v1_0 :: "jsval \<Rightarrow> exn + line_item" where
  "normalize_v1_0 data =
     bindE (getProp data ''entity'') (\<lambda>data_entity.
     bindE (if truthy data_entity then getProp data_entity ''text''
            else Inr (JStr ''Unknown'')) (\<lambda>cName.
     bindE (getProp data ''email.customer'') (\<lambda>data_email.
     bindE (getProp data ''tranid'') (\<lambda>data_tranid.
     bindE (getProp data ''amount'') (\<lambda>data_amount.
     bindE (getProp data ''salesrep.customerMain'') (\<lambda>data_salesrep.
     bindE (if truthy data_salesrep then getProp data_salesrep ''value''
            else Inr (JStr ''Unassigned'')) (\<lambda>salesRep.
       Inr \<lparr> customerName = cName,
             customerEmail = orElse data_email (JStr ''No Email''),
             docNumber = orElse data_tranid (JStr []),
             amount = orElse data_amount (JStr ''0.00''),
             salesRepId = salesRep \<rparr>)))))))"

definition map_pair_v1_0 :: "json_text \<Rightarrow> exn + (jsval \<times> string)" where
  "map_pair_v1_0 context_value =
     bindE (JSON_parse context_value) (\<lambda>parsed.
     bindE (getProp parsed ''values'') (\<lambda>data.
     bindE (normalize_v1_0 data) (\<lambda>item.
     bindE (quoteIfComma (customerName item)) (\<lambda>customerName'.
     bindE (quoteIfComma (customerEmail item)) (\<lambda>customerEmail'.
       Inr (salesRepId item, csvLine customerName' customerEmail' (docNumber item) (amount item)))))))"

definition map_v1_0 :: "json_text \<Rightarrow> ('w, unit) prog" where
  "map_v1_0 context_value =
     tryCatch
       (andThen (lift (map_pair_v1_0 context_value)) (\<lambda>(k, v). emit (Write k v)))
       (\<lambda>e. emit (Log Error ''Map Error'' (Message e)))"

subsection \<open>reduce\<close>

definition header_v1_0 :: string where
  "header_v1_0 = ''Customer Name,Customer Email,Sales Order Document Number,Sales Amount''"

text \<open>Line 95.\<close>

definition csvContent_v1_0 :: "string list \<Rightarrow> string" where
  "csvContent_v1_0 allLines = header_v1_0 @ ''\<newline>'' @ join ''\<newline>'' allLines"

definition csvFile_options_v1_0 :: "string \<Rightarrow> string list \<Rightarrow> file_options" where
  "csvFile_options_v1_0 salesRep allLines =
     \<lparr> name = ''Sales_Report_'' @ salesRep @ ''.csv'',
       fileType = CSV,
       contents = csvContent_v1_0 allLines,
       folder = 1227 \<rparr>"

definition message_v1_0 :: "string \<Rightarrow> jsval \<Rightarrow> jsval \<Rightarrow> file_options \<Rightarrow> email_options" where
  "message_v1_0 salesRep senderName receiverName attachment =
     (let isUnassigned = (salesRep = ''Unassigned'') in
      \<lparr> author = - 5,
        recipients = (if isUnassigned then IdNum (- 5) else IdVal (JStr salesRep)),
        subject = (if isUnassigned then ''Unassigned Sales Report'' else ''Your Sales Report''),
        body = (if isUnassigned
                then ''Dear '' @ toStr receiverName @ '',\<newline>\<newline>Please find attached the sales report containing customers without assigned sales representatives.\<newline>\<newline>Kindly review and assign sales representatives to these customers.\<newline>\<newline>Best regards,\<newline>'' @ toStr senderName
                else ''Dear '' @ toStr receiverName @ '',\<newline>\<newline>Please find attached your monthly sales report.\<newline>\<newline>Best regards,\<newline>'' @ toStr senderName),
        attachments = [attachment] \<rparr>)"

definition lookup_entityid :: "'w platform \<Rightarrow> idval \<Rightarrow> ('w, jsval) prog" where
  "lookup_entityid P i =
     andThen (call (lookupFields P) LookupFields
                \<lparr> type_opt = EMPLOYEE, id_opt = i, columns = [''entityid''] \<rparr>)
             (\<lambda>r. ret (entityid r))"

text \<open>Lines 110 to 121.\<close>

definition receiverName_of :: "'w platform \<Rightarrow> string \<Rightarrow> ('w, jsval) prog" where
  "receiverName_of P salesRep =
     (if \<not> (salesRep = ''Unassigned'')
      then tryCatch
             (andThen (lookup_entityid P (IdVal (JStr salesRep))) (\<lambda>receiver_entityid.
                ret (orElse receiver_entityid (JStr ''Sales Representative''))))
             (\<lambda>e. ret (JStr ''Sales Representative''))
      else ret (JStr ''Admin''))"

text \<open>Lines 128 to 139.\<close>

definition deliver_v1_0 :: "'w platform \<Rightarrow> string \<Rightarrow> jsval \<Rightarrow> jsval \<Rightarrow> int \<Rightarrow> ('w, unit) prog" where
  "deliver_v1_0 P salesRep senderName receiverName fileId =
     tryCatch
       (andThen (call (file_load P) FileLoad fileId) (\<lambda>attachment.
        andThen (call (email_send P) EmailSend
                   (message_v1_0 salesRep senderName receiverName attachment)) (\<lambda>_.
          emit (Log Audit ''Email Sent''
            (Text (if salesRep = ''Unassigned'' then ''To admin'' else ''To sales rep''))))))
       (\<lambda>e. emit (Log Audit ''Email Skipped'' (Text ''Sales rep has no email'')))"

text \<open>Lines 91 to 139.\<close>

definition reduce_body_v1_0 :: "'w platform \<Rightarrow> reduce_context \<Rightarrow> ('w, unit) prog" where
  "reduce_body_v1_0 P ctx =
     (let salesRep = context_key ctx; allLines = context_values ctx in
      andThen (call (file_create P) FileCreate (csvFile_options_v1_0 salesRep allLines)) (\<lambda>csvFile.
      andThen (call (file_save P) FileSave csvFile) (\<lambda>fileId.
      andThen (lookup_entityid P (IdNum (- 5))) (\<lambda>sender_entityid.
      let senderName = orElse sender_entityid (JStr ''NetSuite Admin'') in
      andThen (receiverName_of P salesRep) (\<lambda>receiverName.
        deliver_v1_0 P salesRep senderName receiverName fileId)))))"

definition reduce_v1_0 :: "'w platform \<Rightarrow> reduce_context \<Rightarrow> ('w, unit) prog" where
  "reduce_v1_0 P ctx =
     tryCatch (reduce_body_v1_0 P ctx)
       (\<lambda>e. emit (Log Error ''Reduce Error'' (KeyMessage (context_key ctx) e)))"

section \<open>Version 1.1 (\<^verbatim>\<open>_jj_mr_email_salesrep_salesinfo copy 2.js\<close>): map\<close>

text \<open>Lines 70 to 75: the representative on the transaction.\<close>

definition salesRep_of_order :: "jsval \<Rightarrow> exn + (jsval \<times> jsval)" where
  "salesRep_of_order data =
     bindE (getProp data ''salesrep'') (\<lambda>data_salesrep.
       if truthy data_salesrep
       then bindE (getProp data_salesrep ''value'') (\<lambda>v.
            bindE (getProp data_salesrep ''text'') (\<lambda>t.
              Inr (orElse v (JStr ''Unassigned''), orElse t (JStr ''Unassigned''))))
       else Inr (JStr ''Unassigned'', JStr ''Unassigned''))"

text \<open>The condition of line 78; when it holds, the customer identifier to look up.\<close>

definition customer_to_look_up :: "jsval \<Rightarrow> jsval \<Rightarrow> exn + jsval option" where
  "customer_to_look_up data salesRep =
     (if salesRep = JStr ''Unassigned''
      then bindE (getProp data ''entity'') (\<lambda>data_entity.
             if truthy data_entity
             then bindE (getProp data_entity ''value'') (\<lambda>v.
                    Inr (if truthy v then Some v else None))
             else Inr None)
      else Inr None)"

text \<open>Lines 79 to 88: the fallback to the customer's representative.\<close>

definition salesRep_of_customer :: "'w platform \<Rightarrow> jsval \<Rightarrow> jsval \<times> jsval \<Rightarrow> ('w, jsval \<times> jsval) prog" where
  "salesRep_of_customer P customerId rep =
     andThen (call (lookupFields P) LookupFields
                \<lparr> type_opt = CUSTOMER, id_opt = IdVal customerId, columns = [''salesrep''] \<rparr>)
       (\<lambda>customerFields.
          case salesrep customerFields of
            Some (x # xs) \<Rightarrow>
              lift (bindE (getProp x ''value'') (\<lambda>v.
                    bindE (getProp x ''text'') (\<lambda>t. Inr (v, t))))
          | _ \<Rightarrow> ret rep)"

text \<open>Lines 92 to 115, which read the variable \<^verbatim>\<open>soFields\<close>.\<close>

definition customer_of :: "'w platform \<Rightarrow> lookup_result \<Rightarrow> ('w, jsval \<times> jsval) prog" where
  "customer_of P soFields =
     (case entity soFields of
        Some (x # xs) \<Rightarrow>
          andThen (lift (getProp x ''value'')) (\<lambda>customerId.
          andThen (lift (getProp x ''text'')) (\<lambda>cName.
          andThen (call (lookupFields P) LookupFields
                     \<lparr> type_opt = CUSTOMER, id_opt = IdVal customerId, columns = [''email''] \<rparr>)
            (\<lambda>customerFields.
               ret (cName, if truthy (email customerFields) then email customerFields
                           else JStr ''No Email''))))
      | _ \<Rightarrow> ret (JStr ''Unknown'', JStr ''No Email''))"

definition write_line_v1_1 :: "jsval \<Rightarrow> jsval \<times> jsval \<Rightarrow> jsval \<times> jsval \<Rightarrow> ('w, unit) prog" where
  "write_line_v1_1 data rep cust =
     (case rep of (salesRep, salesRepName) \<Rightarrow>
      case cust of (cName, cEmail) \<Rightarrow>
        andThen (lift (getProp data ''tranid'')) (\<lambda>data_tranid.
        andThen (lift (getProp data ''amount'')) (\<lambda>data_amount.
        andThen (emit (Log Debug ''Map Processing''
                   (Text (''SalesRep: '' @ toStr salesRepName @ '' ('' @ toStr salesRep
                          @ ''), Customer: '' @ toStr cName @ '', Email: '' @ toStr cEmail)))) (\<lambda>_.
          emit (Write salesRep
                  (csvLine cName cEmail (orElse data_tranid (JStr ''Null''))
                     (orElse data_amount (JStr ''0.00''))))))))"

text \<open>
  No declaration of \<^verbatim>\<open>soFields\<close> is in scope in the file, and the platform
  defines no global of that name: evaluating the identifier throws.
\<close>

definition soFields_ref :: "exn + lookup_result" where
  "soFields_ref = Inl (ReferenceError ''soFields'')"

definition map_v1_1 :: "'w platform \<Rightarrow> json_text \<Rightarrow> ('w, unit) prog" where
  "map_v1_1 P context_value =
     tryCatch
       (andThen (lift (JSON_parse context_value)) (\<lambda>searchResult.
        andThen (lift (getProp searchResult ''values'')) (\<lambda>data.
        andThen (lift (salesRep_of_order data)) (\<lambda>rep.
        andThen (lift (customer_to_look_up data (fst rep))) (\<lambda>look_up.
        andThen (case look_up of
                   Some customerId \<Rightarrow> salesRep_of_customer P customerId rep
                 | None \<Rightarrow> ret rep) (\<lambda>rep'.
        andThen (lift soFields_ref) (\<lambda>soFields.
        andThen (customer_of P soFields) (\<lambda>cust.
          write_line_v1_1 data rep' cust))))))))
       (\<lambda>e. emit (Log Error ''Map Error'' (Message e)))"

section \<open>Grouping and reading back\<close>

text \<open>
  Modelled from the spec: the grouping accumulator of section 4.2, which the repository
  leaves to the platform (the pairs map writes come back to reduce as
  \<^verbatim>\<open>context.key\<close> and \<^verbatim>\<open>context.values\<close>). \<open>add\<close> appends to the
  sequence of the item's key and creates the group on first use.
\<close>

fun add :: "jsval \<times> string \<Rightarrow> (jsval \<times> string list) list \<Rightarrow> (jsval \<times> string list) list" where
  "add (k, v) [] = [(k, [v])]"
| "add (k, v) ((k', vs) # groups) =
     (if k = k' then (k', vs @ [v]) # groups else (k', vs) # add (k, v) groups)"

text \<open>
  Modelled from the spec: the accumulation phase of section 4.2, absent from the
  repository like \<open>add\<close>: every item is added in arrival order, starting from no group,
  and the groups are final once the input is exhausted.
\<close>

definition accumulate :: "(jsval \<times> string) list \<Rightarrow> (jsval \<times> string list) list" where
  "accumulate items = foldl (\<lambda>groups item. add item groups) [] items"

text \<open>The pairs written, in the order of writing.\<close>

fun writes :: "event list \<Rightarrow> (jsval \<times> string) list" where
  "writes [] = []"
| "writes (Write k v # evs) = (k, v) # writes evs"
| "writes (ev # evs) = writes evs"



section \<open>What a trace shows\<close>

text \<open>The texts handed to \<^verbatim>\<open>file.create\<close>, and the messages handed to
  \<^verbatim>\<open>email.send\<close>.\<close>

fun rendered :: "event list \<Rightarrow> string list" where
  "rendered [] = []"
| "rendered (FileCreate f r # evs) = contents f # rendered evs"
| "rendered (ev # evs) = rendered evs"

fun sends :: "event list \<Rightarrow> email_options list" where
  "sends [] = []"
| "sends (EmailSend m r # evs) = m # sends evs"
| "sends (ev # evs) = sends evs"

text \<open>A call of the file store or of the identity lookup that threw; a delivery that
  threw; a delivery addressed to \<open>r\<close>; the log entry of a skipped delivery.\<close>

fun call_threw :: "event \<Rightarrow> bool" where
  "call_threw (FileCreate f (Some e)) = True"
| "call_threw (FileSave f (Some e)) = True"
| "call_threw (FileLoad i (Some e)) = True"
| "call_threw (LookupFields l (Some e)) = True"
| "call_threw ev = False"

fun send_threw :: "event \<Rightarrow> bool" where
  "send_threw (EmailSend m (Some e)) = True"
| "send_threw ev = False"

fun send_to :: "idval \<Rightarrow> event \<Rightarrow> bool" where
  "send_to r (EmailSend m x) = (recipients m = r)"
| "send_to r ev = False"

fun skip_logged :: "event \<Rightarrow> bool" where
  "skip_logged (Log Audit title d) = (title = ''Email skipped'' \<or> title = ''Email Skipped'')"
| "skip_logged ev = False"

fun error_logged :: "event \<Rightarrow> bool" where
  "error_logged (Log Error title d) = True"
| "error_logged ev = False"

text \<open>The recipient of a group, in the words of section 4.4: the administrator for the
  sentinel key, otherwise the representative the key identifies.\<close>

definition recipient_of :: "string \<Rightarrow> idval" where
  "recipient_of k = (if k = ''Unassigned'' then IdNum (- 5) else IdVal (JStr k))"

text \<open>
  What the events of one group must show for the group to count as attempted: its
  report was rendered and handed to the file store first; a delivery to its recipient was
  tried, unless a file or lookup call of this same group threw; and a delivery that threw
  ends in the log entry of a skip.
\<close>

definition attempted :: "(string list \<Rightarrow> string) \<Rightarrow> reduce_context \<Rightarrow> event list \<Rightarrow> bool" where
  "attempted render ctx seg \<longleftrightarrow>
     (case seg of FileCreate f r # evs \<Rightarrow> contents f = render (context_values ctx) | _ \<Rightarrow> False) \<and>
     (list_ex call_threw seg \<or> list_ex (send_to (recipient_of (context_key ctx))) seg) \<and>
     (list_ex send_threw seg \<longrightarrow> skip_logged (last seg))"

text \<open>What one row leaves in the trace of the map stage.\<close>

definition row_event :: "string \<Rightarrow> (json_text \<Rightarrow> exn + (jsval \<times> string)) \<Rightarrow> json_text \<Rightarrow> event" where
  "row_event title pair_of row =
     (case pair_of row of Inr (k, l) \<Rightarrow> Write k l | Inl e \<Rightarrow> Log Error title (Message e))"

text \<open>The pairs of the rows that normalize, in the order of the rows.\<close>

fun successes :: "(json_text \<Rightarrow> exn + (jsval \<times> string)) \<Rightarrow> json_text list \<Rightarrow> (jsval \<times> string) list" where
  "successes pair_of [] = []"
| "successes pair_of (row # rows) =
     (case pair_of row of Inr p \<Rightarrow> p # successes pair_of rows | Inl e \<Rightarrow> successes pair_of rows)"

text \<open>The lines written under the key \<open>k\<close>, in the order of writing.\<close>

definition lines_of :: "jsval \<Rightarrow> (jsval \<times> string) list \<Rightarrow> string list" where
  "lines_of k items = map snd (filter (\<lambda>item. fst item = k) items)"

section \<open>Example inputs\<close>

definition select :: "string \<Rightarrow> string \<Rightarrow> jsval" where
  "select v t = JObj [(''value'', JStr v), (''text'', JStr t)]"

definition search_result :: "(string \<times> jsval) list \<Rightarrow> json_text" where
  "search_result cols = JSON (JObj [(''recordType'', JStr ''invoice''), (''values'', JObj cols)])"

definition row_acme :: json_text where
  "row_acme = search_result
     [(''tranid'', JStr ''INV1001''), (''entity'', select ''7'' ''Acme, Inc.''),
      (''email'', JStr ''info@acme.example''), (''amount'', JStr ''100.00''),
      (''salesrep'', select ''12'' ''Jo Rep'')]"

definition row_bolt :: json_text where
  "row_bolt = search_result
     [(''tranid'', JStr ''INV1002''), (''entity'', select ''8'' ''Bolt Ltd''),
      (''email'', JStr ''sales@bolt.example''), (''amount'', JStr ''250.50''),
      (''salesrep'', select ''12'' ''Jo Rep'')]"

text \<open>A row with no representative and no email: the platform writes empty columns as
  empty strings.\<close>

definition row_unassigned :: json_text where
  "row_unassigned = search_result
     [(''tranid'', JStr ''INV1003''), (''entity'', select ''9'' ''Cole''),
      (''email'', JStr []), (''amount'', JStr ''75.00''), (''salesrep'', JStr [])]"


text \<open>A platform whose mail service throws for the representative \<^verbatim>\<open>12\<close> and
  delivers to everyone else; the file store and the lookup always return.\<close>

definition mail_fails_for_12 :: "unit platform" where
  "mail_fails_for_12 =
     \<lparr> getMonth = (\<lambda>w. 10),
       file_create = (\<lambda>f w. (Inr f, w)),
       file_save = (\<lambda>f w. (Inr 1, w)),
       file_load = (\<lambda>i w. (Inr \<lparr> name = ''loaded.csv'', fileType = CSV, contents = [], folder = 1227 \<rparr>, w)),
       email_send = (\<lambda>m w. (if recipients m = IdVal (JStr ''12'')
                                then Inl (HostError ''no email'') else Inr (), w)),
       lookupFields = (\<lambda>l w. (Inr \<lparr> entityid = JStr ''Jo Rep'', salesrep = None,
                                      entity = None, email = JUndefined \<rparr>, w)) \<rparr>"

definition two_groups :: "reduce_context list" where
  "two_groups =
     [\<lparr> context_key = ''12'', context_values = [''Bolt Ltd,sales@bolt.example,INV1002,250.50''] \<rparr>,
      \<lparr> context_key = ''Unassigned'', context_values = [''Cole,No Email,INV1003,75.00''] \<rparr>]"

section \<open>Running the statement sequences\<close>

lemma andThen_call:
  "andThen (call svc ev x) f (w, tr) =
     (case svc x w of
        (Inl e, w') \<Rightarrow> (Inl e, (w', tr @ [ev x (Some e)]))
      | (Inr a, w') \<Rightarrow> f a (w', tr @ [ev x None]))"
  by (simp add: andThen_def call_def split: prod.splits sum.splits)

lemma andThen_today:
  "andThen (today_getMonth P) f (w, tr) = f (getMonth P w) (w, tr)"
  by (simp add: andThen_def today_getMonth_def)

lemma andThen_lift:
  "andThen (lift r) f s = (case r of Inl e \<Rightarrow> (Inl e, s) | Inr x \<Rightarrow> f x s)"
  by (simp add: andThen_def lift_def split: sum.splits)

lemma rendered_append: "rendered (xs @ ys) = rendered xs @ rendered ys"
  by (induction xs rule: rendered.induct) simp_all

lemma sends_append: "sends (xs @ ys) = sends xs @ sends ys"
  by (induction xs rule: sends.induct) simp_all

lemma writes_append: "writes (xs @ ys) = writes xs @ writes ys"
  by (induction xs rule: writes.induct) simp_all

text \<open>A runner over entry points that never throw runs them all, one stretch of trace
  for each element.\<close>

lemma forEach_segs:
  assumes "\<And>c w tr. \<exists>seg w'. f c (w, tr) = (Inr (), (w', tr @ seg)) \<and> Q c seg"
  shows "\<exists>segs w'. forEach f cs (w, tr) = (Inr (), (w', tr @ concat segs)) \<and> list_all2 Q cs segs"
proof (induction cs arbitrary: w tr)
  case Nil
  have "forEach f [] (w, tr) = (Inr (), (w, tr @ concat []))" by (simp add: ret_def)
  then show ?case by (metis list_all2_Nil)
next
  case (Cons c cs)
  obtain seg w1 where c: "f c (w, tr) = (Inr (), (w1, tr @ seg))" and q: "Q c seg"
    using assms by blast
  obtain segs w2 where cs: "forEach f cs (w1, tr @ seg) = (Inr (), (w2, (tr @ seg) @ concat segs))"
    and qs: "list_all2 Q cs segs"
    using Cons.IH by blast
  from c cs have "forEach f (c # cs) (w, tr) = (Inr (), (w2, tr @ concat (seg # segs)))"
    by (simp add: andThen_def)
  moreover from q qs have "list_all2 Q (c # cs) (seg # segs)" by simp
  ultimately show ?case by blast
qed

lemma forEach_events:
  assumes "\<And>c w tr. f c (w, tr) = (Inr (), (w, tr @ [g c]))"
  shows "forEach f cs (w, tr) = (Inr (), (w, tr @ map g cs))"
proof (induction cs arbitrary: tr)
  case Nil
  show ?case by (simp add: ret_def)
next
  case (Cons c cs)
  then show ?case by (simp add: andThen_def assms)
qed

section \<open>One group in reduce\<close>

lemma recipients_message: "recipients (message k mn f) = recipient_of k"
  by (simp add: message_def recipient_of_def Let_def)

lemma deliver_run:
  "\<exists>w' r d. deliver P k mn f (w, tr) =
     (Inr (), (w', tr @ [EmailSend (message k mn f) r,
        Log Audit (if r = None then ''Email sent'' else ''Email skipped'') d]))"
proof (cases "email_send P (message k mn f) w")
  case (Pair r w')
  then show ?thesis
    by (cases r) (simp_all add: deliver_def tryCatch_def andThen_call emit_def)
qed

lemma reduce_salesinfo_seg:
  "\<exists>seg w'. reduce_salesinfo P ctx (w, tr) = (Inr (), (w', tr @ seg)) \<and>
     (attempted csvContent ctx seg \<and> rendered seg = [csvContent (context_values ctx)] \<and>
      list_all (\<lambda>m. recipients m = recipient_of (context_key ctx)) (sends seg))"
proof -
  let ?k = "context_key ctx"
  let ?mn = "monthNames ! lastMonth_getMonth (getMonth P w)"
  let ?opts = "csvFile_options ?k ?mn (context_values ctx)"
  let ?log = "\<lambda>e. Log Error ''Reduce error'' (KeyMessage ?k e)"
  let ?Q = "\<lambda>seg. attempted csvContent ctx seg \<and> rendered seg = [csvContent (context_values ctx)] \<and>
      list_all (\<lambda>m. recipients m = recipient_of ?k) (sends seg)"
  have unfold: "reduce_salesinfo P ctx (w, tr) =
      (case (case file_create P ?opts w of
         (Inl e, w1) \<Rightarrow> (Inl e, (w1, tr @ [FileCreate ?opts (Some e)]))
       | (Inr f, w1) \<Rightarrow>
           (case file_save P f w1 of
              (Inl e, w2) \<Rightarrow> (Inl e, (w2, tr @ [FileCreate ?opts None, FileSave f (Some e)]))
            | (Inr i, w2) \<Rightarrow> deliver P ?k ?mn f (w2, tr @ [FileCreate ?opts None, FileSave f None])))
       of (Inl e, s') \<Rightarrow> emit (?log e) s' | (Inr x, s') \<Rightarrow> (Inr x, s'))"
    by (simp add: reduce_salesinfo_def reduce_body_def tryCatch_def Let_def andThen_today andThen_call
        split: prod.splits sum.splits)
  have render: "contents ?opts = csvContent (context_values ctx)"
    by (simp add: csvFile_options_def)
  obtain r1 w1 where c1: "file_create P ?opts w = (r1, w1)" by (cases "file_create P ?opts w")
  show ?thesis
  proof (cases r1)
    case (Inl e)
    with c1 unfold have "reduce_salesinfo P ctx (w, tr) =
        (Inr (), (w1, tr @ [FileCreate ?opts (Some e), ?log e]))"
      by (simp add: emit_def)
    moreover have "?Q [FileCreate ?opts (Some e), ?log e]"
      using render by (simp add: attempted_def)
    ultimately show ?thesis by blast
  next
    case (Inr f)
    note r1 = this
    obtain r2 w2 where c2: "file_save P f w1 = (r2, w2)" by (cases "file_save P f w1")
    show ?thesis
    proof (cases r2)
      case (Inl e)
      with c1 c2 r1 unfold have "reduce_salesinfo P ctx (w, tr) =
          (Inr (), (w2, tr @ [FileCreate ?opts None, FileSave f (Some e), ?log e]))"
        by (simp add: emit_def)
      moreover have "?Q [FileCreate ?opts None, FileSave f (Some e), ?log e]"
        using render by (simp add: attempted_def)
      ultimately show ?thesis by blast
    next
      case (Inr i)
      obtain w3 r d where d: "deliver P ?k ?mn f (w2, tr @ [FileCreate ?opts None, FileSave f None]) =
          (Inr (), (w3, (tr @ [FileCreate ?opts None, FileSave f None]) @ [EmailSend (message ?k ?mn f) r,
             Log Audit (if r = None then ''Email sent'' else ''Email skipped'') d]))"
        using deliver_run [of P ?k ?mn f w2 "tr @ [FileCreate ?opts None, FileSave f None]"] by blast
      with c1 c2 r1 Inr unfold have "reduce_salesinfo P ctx (w, tr) =
          (Inr (), (w3, tr @ [FileCreate ?opts None, FileSave f None, EmailSend (message ?k ?mn f) r,
             Log Audit (if r = None then ''Email sent'' else ''Email skipped'') d]))"
        by simp
      moreover have "?Q [FileCreate ?opts None, FileSave f None,
           EmailSend (message ?k ?mn f) r, Log Audit (if r = None then ''Email sent'' else ''Email skipped'') d]"
        using render by (cases r) (simp_all add: attempted_def recipients_message)
      ultimately show ?thesis by blast
    qed
  qed
qed

lemma recipients_message_v1_0: "recipients (message_v1_0 k sn rn f) = recipient_of k"
  by (simp add: message_v1_0_def recipient_of_def Let_def)

lemma lookup_entityid_run:
  "lookup_entityid P i (w, tr) =
     (case lookupFields P \<lparr> type_opt = EMPLOYEE, id_opt = i, columns = [''entityid''] \<rparr> w of
        (Inl e, w') \<Rightarrow> (Inl e, (w', tr @ [LookupFields \<lparr> type_opt = EMPLOYEE, id_opt = i, columns = [''entityid''] \<rparr> (Some e)]))
      | (Inr r, w') \<Rightarrow> (Inr (entityid r), (w', tr @ [LookupFields \<lparr> type_opt = EMPLOYEE, id_opt = i, columns = [''entityid''] \<rparr> None])))"
  by (simp add: lookup_entityid_def andThen_call ret_def split: prod.splits sum.splits)

lemma andThen_lookup:
  "andThen (lookup_entityid P i) g (w, tr) =
     (case lookupFields P \<lparr> type_opt = EMPLOYEE, id_opt = i, columns = [''entityid''] \<rparr> w of
        (Inl e, w') \<Rightarrow> (Inl e, (w', tr @ [LookupFields \<lparr> type_opt = EMPLOYEE, id_opt = i, columns = [''entityid''] \<rparr> (Some e)]))
      | (Inr r, w') \<Rightarrow> g (entityid r) (w', tr @ [LookupFields \<lparr> type_opt = EMPLOYEE, id_opt = i, columns = [''entityid''] \<rparr> None]))"
  by (simp add: andThen_def lookup_entityid_run split: prod.splits sum.splits)

lemma receiverName_of_run:
  "\<exists>w' rn seg. receiverName_of P k (w, tr) = (Inr rn, (w', tr @ seg)) \<and>
      (seg = [] \<or> (\<exists>l r. seg = [LookupFields l r]))"
proof (cases "k = ''Unassigned''")
  case True
  then show ?thesis by (simp add: receiverName_of_def ret_def)
next
  case False
  let ?l = "\<lparr> type_opt = EMPLOYEE, id_opt = IdVal (JStr k), columns = [''entityid''] \<rparr>"
  obtain r w' where c: "lookupFields P ?l w = (r, w')" by (cases "lookupFields P ?l w")
  show ?thesis
  proof (cases r)
    case (Inl e)
    with c False have "receiverName_of P k (w, tr) =
        (Inr (JStr ''Sales Representative''), (w', tr @ [LookupFields ?l (Some e)]))"
      by (simp add: receiverName_of_def tryCatch_def andThen_def lookup_entityid_run ret_def)
    then show ?thesis by blast
  next
    case (Inr x)
    with c False have "receiverName_of P k (w, tr) =
        (Inr (orElse (entityid x) (JStr ''Sales Representative'')), (w', tr @ [LookupFields ?l None]))"
      by (simp add: receiverName_of_def tryCatch_def andThen_def lookup_entityid_run ret_def)
    then show ?thesis by blast
  qed
qed

lemma deliver_v1_0_run:
  "\<exists>w' seg. deliver_v1_0 P k sn rn i (w, tr) = (Inr (), (w', tr @ seg)) \<and> seg \<noteq> [] \<and>
      (list_ex call_threw seg \<or> list_ex (send_to (recipient_of k)) seg) \<and>
      (list_ex send_threw seg \<longrightarrow> skip_logged (last seg)) \<and> rendered seg = []"
proof -
  let ?skip = "Log Audit ''Email Skipped'' (Text ''Sales rep has no email'')"
  obtain r1 w1 where c1: "file_load P i w = (r1, w1)" by (cases "file_load P i w")
  show ?thesis
  proof (cases r1)
    case (Inl e)
    with c1 have "deliver_v1_0 P k sn rn i (w, tr) = (Inr (), (w1, tr @ [FileLoad i (Some e), ?skip]))"
      by (simp add: deliver_v1_0_def tryCatch_def andThen_call emit_def)
    then show ?thesis by force
  next
    case (Inr f)
    let ?m = "message_v1_0 k sn rn f"
    obtain r2 w2 where c2: "email_send P ?m w1 = (r2, w2)" by (cases "email_send P ?m w1")
    show ?thesis
    proof (cases r2)
      case (Inl e)
      with c1 c2 \<open>r1 = Inr f\<close> have "deliver_v1_0 P k sn rn i (w, tr) =
          (Inr (), (w2, tr @ [FileLoad i None, EmailSend ?m (Some e), ?skip]))"
        by (simp add: deliver_v1_0_def tryCatch_def andThen_call emit_def)
      moreover have "list_ex (send_to (recipient_of k)) [FileLoad i None, EmailSend ?m (Some e), ?skip]"
        by (simp add: recipients_message_v1_0)
      ultimately show ?thesis by force
    next
      case (Inr u)
      let ?sent = "Log Audit ''Email Sent'' (Text (if k = ''Unassigned'' then ''To admin'' else ''To sales rep''))"
      from c1 c2 \<open>r1 = Inr f\<close> Inr have "deliver_v1_0 P k sn rn i (w, tr) =
          (Inr (), (w2, tr @ [FileLoad i None, EmailSend ?m None, ?sent]))"
        by (simp add: deliver_v1_0_def tryCatch_def andThen_call emit_def)
      moreover have "list_ex (send_to (recipient_of k)) [FileLoad i None, EmailSend ?m None, ?sent]"
        by (simp add: recipients_message_v1_0)
      moreover have "\<not> list_ex send_threw [FileLoad i None, EmailSend ?m None, ?sent]"
        by simp
      moreover have "rendered [FileLoad i None, EmailSend ?m None, ?sent] = []"
        by simp
      ultimately show ?thesis by blast
    qed
  qed
qed

lemma attempted_append:
  assumes "contents opts = render (context_values ctx)"
    and "\<not> list_ex send_threw evs"
    and "seg \<noteq> []"
    and "list_ex call_threw seg \<or> list_ex (send_to (recipient_of (context_key ctx))) seg"
    and "list_ex send_threw seg \<longrightarrow> skip_logged (last seg)"
  shows "attempted render ctx ((FileCreate opts r # evs) @ seg)"
  using assms by (auto simp: attempted_def)

lemma reduce_v1_0_seg:
  "\<exists>seg w'. reduce_v1_0 P ctx (w, tr) = (Inr (), (w', tr @ seg)) \<and>
     (attempted csvContent_v1_0 ctx seg \<and> rendered seg = [csvContent_v1_0 (context_values ctx)])"
proof -
  let ?k = "context_key ctx"
  let ?opts = "csvFile_options_v1_0 ?k (context_values ctx)"
  let ?l = "\<lparr> type_opt = EMPLOYEE, id_opt = IdNum (- 5), columns = [''entityid''] \<rparr>"
  let ?log = "\<lambda>e. Log Error ''Reduce Error'' (KeyMessage ?k e)"
  let ?Q = "\<lambda>seg. attempted csvContent_v1_0 ctx seg \<and> rendered seg = [csvContent_v1_0 (context_values ctx)]"
  have render: "contents ?opts = csvContent_v1_0 (context_values ctx)"
    by (simp add: csvFile_options_v1_0_def)
  have catch: "reduce_v1_0 P ctx (w, tr) =
      (case reduce_body_v1_0 P ctx (w, tr) of
         (Inl e, s') \<Rightarrow> (Inr (), (fst s', snd s' @ [?log e]))
       | (Inr x, s') \<Rightarrow> (Inr x, s'))"
    by (simp add: reduce_v1_0_def tryCatch_def emit_def split: prod.splits sum.splits)
  have body: "reduce_body_v1_0 P ctx (w, tr) =
      (case file_create P ?opts w of
         (Inl e, w1) \<Rightarrow> (Inl e, (w1, tr @ [FileCreate ?opts (Some e)]))
       | (Inr f, w1) \<Rightarrow>
           (case file_save P f w1 of
              (Inl e, w2) \<Rightarrow> (Inl e, (w2, tr @ [FileCreate ?opts None, FileSave f (Some e)]))
            | (Inr i, w2) \<Rightarrow>
                (case lookupFields P ?l w2 of
                   (Inl e, w3) \<Rightarrow> (Inl e, (w3, tr @ [FileCreate ?opts None, FileSave f None, LookupFields ?l (Some e)]))
                 | (Inr x, w3) \<Rightarrow>
                     andThen (receiverName_of P ?k)
                       (\<lambda>rn. deliver_v1_0 P ?k (orElse (entityid x) (JStr ''NetSuite Admin'')) rn i)
                       (w3, tr @ [FileCreate ?opts None, FileSave f None, LookupFields ?l None]))))"
    by (simp add: reduce_body_v1_0_def Let_def andThen_call andThen_lookup
        split: prod.splits sum.splits)
  obtain r1 w1 where c1: "file_create P ?opts w = (r1, w1)" by (cases "file_create P ?opts w")
  show ?thesis
  proof (cases r1)
    case (Inl e)
    with c1 catch body have "reduce_v1_0 P ctx (w, tr) =
        (Inr (), (w1, tr @ [FileCreate ?opts (Some e), ?log e]))"
      by simp
    moreover have "?Q [FileCreate ?opts (Some e), ?log e]"
      using render by (simp add: attempted_def)
    ultimately show ?thesis by blast
  next
    case (Inr f)
    note r1 = this
    obtain r2 w2 where c2: "file_save P f w1 = (r2, w2)" by (cases "file_save P f w1")
    show ?thesis
    proof (cases r2)
      case (Inl e)
      with c1 c2 r1 catch body have "reduce_v1_0 P ctx (w, tr) =
          (Inr (), (w2, tr @ [FileCreate ?opts None, FileSave f (Some e), ?log e]))"
        by simp
      moreover have "?Q [FileCreate ?opts None, FileSave f (Some e), ?log e]"
        using render by (simp add: attempted_def)
      ultimately show ?thesis by blast
    next
      case (Inr i)
      note r2 = this
      obtain r3 w3 where c3: "lookupFields P ?l w2 = (r3, w3)" by (cases "lookupFields P ?l w2")
      show ?thesis
      proof (cases r3)
        case (Inl e)
        with c1 c2 c3 r1 r2 catch body have "reduce_v1_0 P ctx (w, tr) =
            (Inr (), (w3, tr @ [FileCreate ?opts None, FileSave f None, LookupFields ?l (Some e), ?log e]))"
          by simp
        moreover have "?Q [FileCreate ?opts None, FileSave f None, LookupFields ?l (Some e), ?log e]"
          using render by (simp add: attempted_def)
        ultimately show ?thesis by blast
      next
        case (Inr x)
        note r3 = this
        let ?pre = "[FileCreate ?opts None, FileSave f None, LookupFields ?l None]"
        let ?sn = "orElse (entityid x) (JStr ''NetSuite Admin'')"
        obtain w4 rn rseg where rcv: "receiverName_of P ?k (w3, tr @ ?pre) = (Inr rn, (w4, (tr @ ?pre) @ rseg))"
          and rseg: "rseg = [] \<or> (\<exists>l r. rseg = [LookupFields l r])"
          using receiverName_of_run [of P ?k w3 "tr @ ?pre"] by blast
        obtain w5 dseg where dlv: "deliver_v1_0 P ?k ?sn rn i (w4, (tr @ ?pre) @ rseg) =
              (Inr (), (w5, ((tr @ ?pre) @ rseg) @ dseg))"
          and dseg: "dseg \<noteq> []"
            "list_ex call_threw dseg \<or> list_ex (send_to (recipient_of ?k)) dseg"
            "list_ex send_threw dseg \<longrightarrow> skip_logged (last dseg)"
            "rendered dseg = []"
          using deliver_v1_0_run [of P ?k ?sn rn i w4 "(tr @ ?pre) @ rseg"] by blast
        from c1 c2 c3 r1 r2 r3 catch body rcv dlv
        have "reduce_v1_0 P ctx (w, tr) = (Inr (), (w5, tr @ ((?pre @ rseg) @ dseg)))"
          by (simp add: andThen_def)
        moreover have "\<not> list_ex send_threw ([FileSave f None, LookupFields ?l None] @ rseg)"
          using rseg by auto
        then have "attempted csvContent_v1_0 ctx
            ((FileCreate ?opts None # [FileSave f None, LookupFields ?l None] @ rseg) @ dseg)"
          using render dseg(1-3) by (intro attempted_append)
        then have "attempted csvContent_v1_0 ctx ((?pre @ rseg) @ dseg)" by simp
        moreover have "rendered ((?pre @ rseg) @ dseg) = [csvContent_v1_0 (context_values ctx)]"
          using rseg dseg(4) render by (auto simp: rendered_append)
        ultimately show ?thesis by blast
      qed
    qed
  qed
qed

section \<open>One row in map\<close>

lemma map_salesinfo_run:
  "map_salesinfo row (w, tr) = (Inr (), (w, tr @ [row_event ''Map error'' map_pair row]))"
  by (cases "map_pair row")
     (auto simp: map_salesinfo_def tryCatch_def andThen_lift emit_def row_event_def)

lemma map_v1_0_run:
  "map_v1_0 row (w, tr) = (Inr (), (w, tr @ [row_event ''Map Error'' map_pair_v1_0 row]))"
  by (cases "map_pair_v1_0 row")
     (auto simp: map_v1_0_def tryCatch_def andThen_lift emit_def row_event_def)

lemma writes_row_events:
  "writes (map (row_event title pair_of) rows) = successes pair_of rows"
  by (induction rows) (auto simp: row_event_def split: sum.splits)

section \<open>Containment of failures\<close>

text \<open>
  C1. In both versions of reduce, a delivery that throws is caught inside the processing
  of its own group and logged as a skip, and the batch goes on: run over any list of
  groups, on any platform and from any state, the runner ends normally, and the trace
  splits into one stretch for each group, in order, each showing that group attempted:
  its report rendered and handed to the file store, a delivery to its recipient tried
  unless a file or lookup call of this same group threw, and a thrown delivery ending in
  the log entry of a skip. What the mail service did for one group decides nothing for
  another.
\<close>

theorem dispatch_failure_contained:
  "(\<exists>segs w'. forEach (reduce_salesinfo P) groups (w, tr) = (Inr (), (w', tr @ concat segs)) \<and>
        list_all2 (attempted csvContent) groups segs) \<and>
   (\<exists>segs w'. forEach (reduce_v1_0 P) groups (w, tr) = (Inr (), (w', tr @ concat segs)) \<and>
        list_all2 (attempted csvContent_v1_0) groups segs)"
proof
  have "\<And>c w tr. \<exists>seg w'. reduce_salesinfo P c (w, tr) = (Inr (), (w', tr @ seg)) \<and> attempted csvContent c seg"
    using reduce_salesinfo_seg [of P] by blast
  then show "\<exists>segs w'. forEach (reduce_salesinfo P) groups (w, tr) = (Inr (), (w', tr @ concat segs)) \<and>
        list_all2 (attempted csvContent) groups segs"
    by (rule forEach_segs)
next
  have "\<And>c w tr. \<exists>seg w'. reduce_v1_0 P c (w, tr) = (Inr (), (w', tr @ seg)) \<and> attempted csvContent_v1_0 c seg"
    using reduce_v1_0_seg [of P] by blast
  then show "\<exists>segs w'. forEach (reduce_v1_0 P) groups (w, tr) = (Inr (), (w', tr @ concat segs)) \<and>
        list_all2 (attempted csvContent_v1_0) groups segs"
    by (rule forEach_segs)
qed

theorem dispatch_failure_contained_witness:
  "(list_ex send_threw (snd (snd (forEach (reduce_salesinfo mail_fails_for_12) two_groups ((), [])))) \<and>
    map recipients (sends (snd (snd (forEach (reduce_salesinfo mail_fails_for_12) two_groups ((), [])))))
      = [IdVal (JStr ''12''), IdNum (- 5)] \<and>
    map recipients (sends (snd (snd (forEach (reduce_v1_0 mail_fails_for_12) two_groups ((), [])))))
      = [IdVal (JStr ''12''), IdNum (- 5)]) \<and>
   ((\<exists>segs w'. forEach (reduce_salesinfo mail_fails_for_12) two_groups ((), []) = (Inr (), (w', [] @ concat segs)) \<and>
        list_all2 (attempted csvContent) two_groups segs) \<and>
   (\<exists>segs w'. forEach (reduce_v1_0 mail_fails_for_12) two_groups ((), []) = (Inr (), (w', [] @ concat segs)) \<and>
        list_all2 (attempted csvContent_v1_0) two_groups segs))"
proof
  show "list_ex send_threw (snd (snd (forEach (reduce_salesinfo mail_fails_for_12) two_groups ((), [])))) \<and>
    map recipients (sends (snd (snd (forEach (reduce_salesinfo mail_fails_for_12) two_groups ((), [])))))
      = [IdVal (JStr ''12''), IdNum (- 5)] \<and>
    map recipients (sends (snd (snd (forEach (reduce_v1_0 mail_fails_for_12) two_groups ((), [])))))
      = [IdVal (JStr ''12''), IdNum (- 5)]"
    by code_simp
next
  show "(\<exists>segs w'. forEach (reduce_salesinfo mail_fails_for_12) two_groups ((), []) = (Inr (), (w', [] @ concat segs)) \<and>
        list_all2 (attempted csvContent) two_groups segs) \<and>
   (\<exists>segs w'. forEach (reduce_v1_0 mail_fails_for_12) two_groups ((), []) = (Inr (), (w', [] @ concat segs)) \<and>
        list_all2 (attempted csvContent_v1_0) two_groups segs)"
    by (rule dispatch_failure_contained)
qed

text \<open>
  C2. In both versions of map, a row whose normalization throws leaves one error entry in
  the log and nothing else, a row that normalizes leaves exactly one written pair, and
  the batch goes on: run over any stream of rows, the runner ends normally, every row
  has left its one event in order, and the pairs written are those of all the rows that
  normalize, whatever rows failed between them.
\<close>

theorem malformed_row_contained:
  "(forEach map_salesinfo rows (w, tr) = (Inr (), (w, tr @ map (row_event ''Map error'' map_pair) rows)) \<and>
    writes (map (row_event ''Map error'' map_pair) rows) = successes map_pair rows) \<and>
   (forEach map_v1_0 rows (w, tr) = (Inr (), (w, tr @ map (row_event ''Map Error'' map_pair_v1_0) rows)) \<and>
    writes (map (row_event ''Map Error'' map_pair_v1_0) rows) = successes map_pair_v1_0 rows)"
  by (simp add: forEach_events [of map_salesinfo, OF map_salesinfo_run]
      forEach_events [of map_v1_0, OF map_v1_0_run] writes_row_events)

theorem malformed_row_contained_witness:
  "(map_pair NotJSON = Inl SyntaxError \<and>
    successes map_pair [row_bolt, NotJSON, row_unassigned] =
      [(JStr ''12'', ''Bolt Ltd,sales@bolt.example,INV1002,250.50''),
       (JStr ''Unassigned'', ''Cole,No Email,INV1003,75.00'')]) \<and>
   ((forEach map_salesinfo [row_bolt, NotJSON, row_unassigned] ((), []) =
       (Inr (), ((), [] @ map (row_event ''Map error'' map_pair) [row_bolt, NotJSON, row_unassigned])) \<and>
    writes (map (row_event ''Map error'' map_pair) [row_bolt, NotJSON, row_unassigned]) =
       successes map_pair [row_bolt, NotJSON, row_unassigned]) \<and>
   (forEach map_v1_0 [row_bolt, NotJSON, row_unassigned] ((), []) =
       (Inr (), ((), [] @ map (row_event ''Map Error'' map_pair_v1_0) [row_bolt, NotJSON, row_unassigned])) \<and>
    writes (map (row_event ''Map Error'' map_pair_v1_0) [row_bolt, NotJSON, row_unassigned]) =
       successes map_pair_v1_0 [row_bolt, NotJSON, row_unassigned]))"
proof
  show "map_pair NotJSON = Inl SyntaxError \<and>
    successes map_pair [row_bolt, NotJSON, row_unassigned] =
      [(JStr ''12'', ''Bolt Ltd,sales@bolt.example,INV1002,250.50''),
       (JStr ''Unassigned'', ''Cole,No Email,INV1003,75.00'')]"
    by code_simp
next
  show "(forEach map_salesinfo [row_bolt, NotJSON, row_unassigned] ((), []) =
       (Inr (), ((), [] @ map (row_event ''Map error'' map_pair) [row_bolt, NotJSON, row_unassigned])) \<and>
    writes (map (row_event ''Map error'' map_pair) [row_bolt, NotJSON, row_unassigned]) =
       successes map_pair [row_bolt, NotJSON, row_unassigned]) \<and>
   (forEach map_v1_0 [row_bolt, NotJSON, row_unassigned] ((), []) =
       (Inr (), ((), [] @ map (row_event ''Map Error'' map_pair_v1_0) [row_bolt, NotJSON, row_unassigned])) \<and>
    writes (map (row_event ''Map Error'' map_pair_v1_0) [row_bolt, NotJSON, row_unassigned]) =
       successes map_pair_v1_0 [row_bolt, NotJSON, row_unassigned])"
    by (rule malformed_row_contained)
qed

section \<open>What map computes\<close>

lemma normalize_salesinfo_fields:
  assumes "normalize_salesinfo data = Inr item"
  shows "\<exists>e n em t a r v.
           getProp data ''entity'' = Inr e \<and> optProp e ''text'' = Inr n \<and>
           getProp data ''email'' = Inr em \<and> getProp data ''tranid'' = Inr t \<and>
           getProp data ''amount'' = Inr a \<and> getProp data ''salesrep'' = Inr r \<and>
           optProp r ''value'' = Inr v \<and>
           item = \<lparr> customerName = orElse n (JStr ''Unknown''),
                    customerEmail = orElse em (JStr ''No Email''),
                    docNumber = orElse t (JStr ''Null''),
                    amount = orElse a (JStr ''0.00''),
                    salesRepId = orElse v (JStr ''Unassigned'') \<rparr>"
  using assms
  by (auto simp: normalize_salesinfo_def bindE_def split: sum.splits)

lemma map_pair_parts:
  assumes "map_pair (JSON parsed) = Inr (k, line)"
  shows "\<exists>data item n e.
           getProp parsed ''values'' = Inr data \<and> normalize_salesinfo data = Inr item \<and>
           quoteIfComma (customerName item) = Inr n \<and> quoteIfComma (customerEmail item) = Inr e \<and>
           k = salesRepId item \<and> line = csvLine n e (docNumber item) (amount item)"
  using assms
  by (auto simp: map_pair_def bindE_def split: sum.splits)

lemma reduce_salesinfo_trace:
  "\<exists>seg w'. reduce_salesinfo P ctx (w, []) = (Inr (), (w', seg)) \<and>
     (attempted csvContent ctx seg \<and> rendered seg = [csvContent (context_values ctx)] \<and>
      list_all (\<lambda>m. recipients m = recipient_of (context_key ctx)) (sends seg))"
  using reduce_salesinfo_seg [of P ctx w "[]"] by simp

lemma quoteIfComma_JStr:
  "quoteIfComma (JStr s) = Inr (JStr (if CHR '','' \<in> set s then quoted s else s))"
  by (simp add: quoteIfComma_def bindE_def)





section \<open>Version 1.1: every row throws\<close>

lemma andThen_ret: "andThen (ret x) f s = f x s"
  by (simp add: andThen_def ret_def)

lemma salesRep_of_customer_run:
  "\<exists>res w' l r. salesRep_of_customer P customerId rep (w, tr) = (res, (w', tr @ [LookupFields l r]))"
proof -
  let ?l = "\<lparr> type_opt = CUSTOMER, id_opt = IdVal customerId, columns = [''salesrep''] \<rparr>"
  obtain r1 w1 where c: "lookupFields P ?l w = (r1, w1)" by (cases "lookupFields P ?l w")
  show ?thesis
  proof (cases r1)
    case (Inl e)
    with c have "salesRep_of_customer P customerId rep (w, tr) = (Inl e, (w1, tr @ [LookupFields ?l (Some e)]))"
      by (simp add: salesRep_of_customer_def andThen_call)
    then show ?thesis by blast
  next
    case (Inr cf)
    with c have "\<exists>res. salesRep_of_customer P customerId rep (w, tr) = (res, (w1, tr @ [LookupFields ?l None]))"
      by (simp add: salesRep_of_customer_def andThen_call lift_def ret_def split: option.splits list.splits)
    then show ?thesis by blast
  qed
qed

lemma map_v1_1_seg:
  "\<exists>seg w'. map_v1_1 P row (w, tr) = (Inr (), (w', tr @ seg)) \<and>
      (writes seg = [] \<and> seg \<noteq> [] \<and> error_logged (last seg))"
proof -
  let ?log = "\<lambda>e. Log Error ''Map Error'' (Message e)"
  let ?Q = "\<lambda>seg. writes seg = [] \<and> seg \<noteq> [] \<and> error_logged (last seg)"
  have body: "\<exists>e w' pre. (pre = [] \<or> (\<exists>l r. pre = [LookupFields l r])) \<and>
      map_v1_1 P row (w, tr) = (Inr (), (w', tr @ pre @ [?log e]))"
  proof (cases "JSON_parse row")
    case (Inl e)
    then have "map_v1_1 P row (w, tr) = (Inr (), (w, tr @ [] @ [?log e]))"
      by (simp add: map_v1_1_def tryCatch_def andThen_lift emit_def)
    then show ?thesis by blast
  next
    case (Inr searchResult)
    note p1 = this
    show ?thesis
    proof (cases "getProp searchResult ''values''")
      case (Inl e)
      with p1 have "map_v1_1 P row (w, tr) = (Inr (), (w, tr @ [] @ [?log e]))"
        by (simp add: map_v1_1_def tryCatch_def andThen_lift emit_def)
      then show ?thesis by blast
    next
      case (Inr data)
      note p2 = this
      show ?thesis
      proof (cases "salesRep_of_order data")
        case (Inl e)
        with p1 p2 have "map_v1_1 P row (w, tr) = (Inr (), (w, tr @ [] @ [?log e]))"
          by (simp add: map_v1_1_def tryCatch_def andThen_lift emit_def)
        then show ?thesis by blast
      next
        case (Inr rep)
        note p3 = this
        show ?thesis
        proof (cases "customer_to_look_up data (fst rep)")
          case (Inl e)
          with p1 p2 p3 have "map_v1_1 P row (w, tr) = (Inr (), (w, tr @ [] @ [?log e]))"
            by (simp add: map_v1_1_def tryCatch_def andThen_lift emit_def)
          then show ?thesis by blast
        next
          case (Inr look_up)
          note p4 = this
          show ?thesis
          proof (cases look_up)
            case None
            with p1 p2 p3 p4 have "map_v1_1 P row (w, tr) =
                (Inr (), (w, tr @ [] @ [?log (ReferenceError ''soFields'')]))"
              by (simp add: map_v1_1_def tryCatch_def andThen_lift andThen_ret soFields_ref_def emit_def)
            then show ?thesis by blast
          next
            case (Some customerId)
            obtain res w1 l r where c: "salesRep_of_customer P customerId rep (w, tr) =
                (res, (w1, tr @ [LookupFields l r]))"
              using salesRep_of_customer_run [of P customerId rep w tr] by blast
            show ?thesis
            proof (cases res)
              case (Inl e)
              with p1 p2 p3 p4 Some c have "map_v1_1 P row (w, tr) =
                  (Inr (), (w1, tr @ [LookupFields l r] @ [?log e]))"
                by (simp add: map_v1_1_def tryCatch_def andThen_lift soFields_ref_def emit_def)
                   (simp add: andThen_def lift_def emit_def)
              then show ?thesis by blast
            next
              case (Inr rep')
              with p1 p2 p3 p4 Some c have "map_v1_1 P row (w, tr) =
                  (Inr (), (w1, tr @ [LookupFields l r] @ [?log (ReferenceError ''soFields'')]))"
                by (simp add: map_v1_1_def tryCatch_def andThen_lift soFields_ref_def emit_def)
                   (simp add: andThen_def lift_def emit_def)
              then show ?thesis by blast
            qed
          qed
        qed
      qed
    qed
  qed
  then obtain e w' pre where pre: "pre = [] \<or> (\<exists>l r. pre = [LookupFields l r])"
    and run: "map_v1_1 P row (w, tr) = (Inr (), (w', tr @ pre @ [?log e]))"
    by blast
  from pre have "?Q (pre @ [?log e])" by (auto simp: writes_append)
  with run show ?thesis by blast
qed

lemma writes_concat:
  "list_all2 (\<lambda>c seg. writes seg = [] \<and> R c seg) cs segs \<Longrightarrow> writes (concat segs) = []"
  by (induction cs segs rule: list_all2_induct) (simp_all add: writes_append)

section \<open>Grouping key and recipient\<close>

text \<open>
  C3. A row whose representative reference is absent (\<^verbatim>\<open>undefined\<close> or
  \<^verbatim>\<open>null\<close>, or carrying no identifier: the identifier read from it is
  \<^verbatim>\<open>undefined\<close>, \<^verbatim>\<open>null\<close> or the empty string) is written under the
  key \<^verbatim>\<open>"Unassigned"\<close>; a row whose reference carries an identifier is written
  under that identifier. In reduce, every delivery tried for the key
  \<^verbatim>\<open>"Unassigned"\<close> is addressed to the administrator \<^verbatim>\<open>-5\<close>, every delivery
  tried for another key is addressed to the representative the key names, and a delivery
  is tried unless a call of the file store threw.
\<close>

theorem unassigned_key_goes_to_admin:
  assumes "map_pair (JSON parsed) = Inr (k, line)"
    and "getProp parsed ''values'' = Inr data"
    and "getProp data ''salesrep'' = Inr r"
    and "optProp r ''value'' = Inr v"
    and "T = snd (snd (reduce_salesinfo P \<lparr> context_key = key, context_values = vs \<rparr> (w, [])))"
  shows "(r = JUndefined \<or> r = JNull \<longrightarrow> k = JStr ''Unassigned'') \<and>
         k = (if truthy v then v else JStr ''Unassigned'') \<and>
         (key = ''Unassigned'' \<longrightarrow> list_all (\<lambda>m. recipients m = IdNum (- 5)) (sends T)) \<and>
         (key \<noteq> ''Unassigned'' \<longrightarrow> list_all (\<lambda>m. recipients m = IdVal (JStr key)) (sends T)) \<and>
         (list_ex call_threw T \<or> sends T \<noteq> [])"
proof -
  obtain data' item where "getProp parsed ''values'' = Inr data'"
    and "normalize_salesinfo data' = Inr item" and k: "k = salesRepId item"
    using map_pair_parts [OF assms(1)] by blast
  with assms(2) have "normalize_salesinfo data = Inr item" by simp
  from normalize_salesinfo_fields [OF this] assms(3,4) k
  have key: "k = orElse v (JStr ''Unassigned'')" by auto
  have absent: "r = JUndefined \<or> r = JNull \<longrightarrow> v = JUndefined"
    using assms(4) by auto
  let ?ctx = "\<lparr> context_key = key, context_values = vs \<rparr>"
  obtain seg w' where run: "reduce_salesinfo P ?ctx (w, []) = (Inr (), (w', seg))"
    and att: "attempted csvContent ?ctx seg"
    and to: "list_all (\<lambda>m. recipients m = recipient_of (context_key ?ctx)) (sends seg)"
    using reduce_salesinfo_trace [of P ?ctx w] by blast
  from run assms(5) have T: "T = seg" by simp
  have "list_ex (send_to i) evs \<Longrightarrow> sends evs \<noteq> []" for i evs
    by (induction evs rule: sends.induct) auto
  with att have "list_ex call_threw seg \<or> sends seg \<noteq> []"
    by (auto simp: attempted_def)
  with key absent to T show ?thesis
    by (auto simp: orElse_def recipient_of_def)
qed

theorem unassigned_key_goes_to_admin_witness:
  "map_pair row_unassigned = Inr (JStr ''Unassigned'', ''Cole,No Email,INV1003,75.00'') \<and>
   map_pair row_bolt = Inr (JStr ''12'', ''Bolt Ltd,sales@bolt.example,INV1002,250.50'') \<and>
   map recipients (sends (snd (snd (reduce_salesinfo mail_fails_for_12
      \<lparr> context_key = ''Unassigned'', context_values = [''Cole,No Email,INV1003,75.00''] \<rparr> ((), []))))) =
     [IdNum (- 5)] \<and>
   list_all (\<lambda>m. recipients m = IdNum (- 5)) (sends (snd (snd (reduce_salesinfo mail_fails_for_12
      \<lparr> context_key = ''Unassigned'', context_values = [''Cole,No Email,INV1003,75.00''] \<rparr> ((), [])))))"
proof -
  let ?parsed = "JObj [(''recordType'', JStr ''invoice''), (''values'', JObj
     [(''tranid'', JStr ''INV1003''), (''entity'', select ''9'' ''Cole''),
      (''email'', JStr []), (''amount'', JStr ''75.00''), (''salesrep'', JStr [])])]"
  let ?data = "JObj
     [(''tranid'', JStr ''INV1003''), (''entity'', select ''9'' ''Cole''),
      (''email'', JStr []), (''amount'', JStr ''75.00''), (''salesrep'', JStr [])]"
  let ?T = "snd (snd (reduce_salesinfo mail_fails_for_12
      \<lparr> context_key = ''Unassigned'', context_values = [''Cole,No Email,INV1003,75.00''] \<rparr> ((), [])))"
  have row: "row_unassigned = JSON ?parsed"
    by (simp add: row_unassigned_def search_result_def)
  have 1: "map_pair (JSON ?parsed) = Inr (JStr ''Unassigned'', ''Cole,No Email,INV1003,75.00'')"
    by code_simp
  have 2: "getProp ?parsed ''values'' = Inr ?data" by simp
  have 3: "getProp ?data ''salesrep'' = Inr (JStr [])" by simp
  have 4: "optProp (JStr []) ''value'' = Inr JUndefined" by simp
  have 5: "map_pair row_bolt = Inr (JStr ''12'', ''Bolt Ltd,sales@bolt.example,INV1002,250.50'')"
    by code_simp
  have 6: "map recipients (sends ?T) = [IdNum (- 5)]" by code_simp
  from unassigned_key_goes_to_admin [where P = mail_fails_for_12 and key = "''Unassigned''"
      and vs = "[''Cole,No Email,INV1003,75.00'']" and w = "()", OF 1 2 3 4 refl]
  have "list_all (\<lambda>m. recipients m = IdNum (- 5)) (sends ?T)" by simp
  with 1 5 6 row show ?thesis by simp
qed

section \<open>Quoting of fields\<close>




text \<open>
  C5, as amended. Escaping is applied once because only map applies it: reduce hands the
  file store the header and the lines it was given, joined by newlines and otherwise
  untouched, so a field that map quoted is not quoted again by rendering. The escaping
  step itself is not idempotent: applied to its own output it leaves the field unchanged
  exactly when the field contains no comma.
\<close>

theorem escaped_once_in_map_only:
  "rendered (snd (snd (reduce_salesinfo P \<lparr> context_key = k, context_values = allLines \<rparr> (w, [])))) =
     [header @ ''\<newline>'' @ join ''\<newline>'' allLines] \<and>
   (bindE (quoteIfComma (JStr s)) quoteIfComma = quoteIfComma (JStr s) \<longleftrightarrow> CHR '','' \<notin> set s)"
proof
  let ?ctx = "\<lparr> context_key = k, context_values = allLines \<rparr>"
  obtain seg w' where "reduce_salesinfo P ?ctx (w, []) = (Inr (), (w', seg))"
    and "rendered seg = [csvContent (context_values ?ctx)]"
    using reduce_salesinfo_trace [of P ?ctx w] by blast
  then show "rendered (snd (snd (reduce_salesinfo P ?ctx (w, [])))) =
     [header @ ''\<newline>'' @ join ''\<newline>'' allLines]"
    by (simp add: csvContent_def)
next
  show "bindE (quoteIfComma (JStr s)) quoteIfComma = quoteIfComma (JStr s) \<longleftrightarrow> CHR '','' \<notin> set s"
    by (simp add: quoteIfComma_JStr bindE_def quoted_def)
qed

theorem escaped_once_in_map_only_witness:
  \<open>quoteIfComma (JStr ''Bolt Ltd'') = Inr (JStr ''Bolt Ltd'') \<and>
   bindE (quoteIfComma (JStr ''Bolt Ltd'')) quoteIfComma = quoteIfComma (JStr ''Bolt Ltd'') \<and>
   rendered (snd (snd (reduce_salesinfo mail_fails_for_12
      \<lparr> context_key = ''12'', context_values = [''"Acme, Inc.",info@acme.example,INV1001,100.00''] \<rparr> ((), [])))) =
     [''Customer Name,Customer Email,Document Number,Sales Amount\<newline>"Acme, Inc.",info@acme.example,INV1001,100.00'']\<close>
proof -
  have \<open>CHR '','' \<notin> set ''Bolt Ltd''\<close> by simp
  with escaped_once_in_map_only [of mail_fails_for_12 "''12''"
      \<open>[''"Acme, Inc.",info@acme.example,INV1001,100.00'']\<close> "()" "''Bolt Ltd''"]
  show ?thesis by (simp add: header_def quoteIfComma_JStr)
qed

text \<open>
  C5 as stated fails: the escaping step applied to its own output wraps the field a
  second time.
\<close>

theorem escaping_twice_quotes_twice:
  \<open>quoteIfComma (JStr ''Acme, Inc.'') = Inr (JStr ''"Acme, Inc."'') \<and>
   bindE (quoteIfComma (JStr ''Acme, Inc.'')) quoteIfComma = Inr (JStr ''""Acme, Inc.""'')\<close>
  by code_simp

section \<open>Defaults\<close>

text \<open>
  C7. Whenever map normalizes a row, the customer name is \<^verbatim>\<open>"Unknown"\<close> when the
  customer reference is absent (and whenever it carries no display name), the customer
  email is \<^verbatim>\<open>"No Email"\<close>, the amount \<^verbatim>\<open>"0.00"\<close> and the document number
  the placeholder \<^verbatim>\<open>"Null"\<close> when the column is absent (\<^verbatim>\<open>undefined\<close>,
  \<^verbatim>\<open>null\<close> or the empty string); a value that is present is passed through.
\<close>

theorem absent_fields_get_defaults:
  assumes "normalize_salesinfo data = Inr item"
    and "getProp data ''entity'' = Inr e" and "optProp e ''text'' = Inr n"
    and "getProp data ''email'' = Inr em"
    and "getProp data ''tranid'' = Inr t"
    and "getProp data ''amount'' = Inr a"
  shows "(e = JUndefined \<or> e = JNull \<longrightarrow> customerName item = JStr ''Unknown'') \<and>
         customerName item = (if truthy n then n else JStr ''Unknown'') \<and>
         customerEmail item = (if truthy em then em else JStr ''No Email'') \<and>
         docNumber item = (if truthy t then t else JStr ''Null'') \<and>
         amount item = (if truthy a then a else JStr ''0.00'')"
  using normalize_salesinfo_fields [OF assms(1)] assms(2-)
  by (auto simp: orElse_def)

theorem absent_fields_get_defaults_witness:
  "normalize_salesinfo (JObj [(''tranid'', JStr ''INV1003''), (''email'', JStr [])]) =
     Inr \<lparr> customerName = JStr ''Unknown'', customerEmail = JStr ''No Email'',
           docNumber = JStr ''INV1003'', amount = JStr ''0.00'', salesRepId = JStr ''Unassigned'' \<rparr>"
proof -
  let ?data = "JObj [(''tranid'', JStr ''INV1003''), (''email'', JStr [])]"
  obtain item where n: "normalize_salesinfo ?data = Inr item"
    by (simp add: normalize_salesinfo_def bindE_def)
  have "getProp ?data ''entity'' = Inr JUndefined" "optProp JUndefined ''text'' = Inr JUndefined"
    "getProp ?data ''email'' = Inr (JStr [])" "getProp ?data ''tranid'' = Inr (JStr ''INV1003'')"
    "getProp ?data ''amount'' = Inr JUndefined"
    by simp_all
  from absent_fields_get_defaults [OF n this]
  have "customerName item = JStr ''Unknown''" "customerEmail item = JStr ''No Email''"
    "docNumber item = JStr ''INV1003''" "amount item = JStr ''0.00''"
    by simp_all
  moreover from n have "salesRepId item = JStr ''Unassigned''"
    by (auto simp: normalize_salesinfo_def bindE_def orElse_def)
  ultimately have "item = \<lparr> customerName = JStr ''Unknown'', customerEmail = JStr ''No Email'',
           docNumber = JStr ''INV1003'', amount = JStr ''0.00'', salesRepId = JStr ''Unassigned'' \<rparr>"
    by simp
  with n show ?thesis by simp
qed

section \<open>Rendering\<close>

text \<open>
  C8. The text reduce renders for a group is a function of the lines and their order
  alone: on any two platforms, from any two states, under any two keys, the same lines
  give the same text, and rendering the same group twice in a row gives the same text
  twice.
\<close>

theorem rendering_is_deterministic:
  "rendered (snd (snd (reduce_salesinfo P \<lparr> context_key = k, context_values = items \<rparr> (w, [])))) =
     [csvContent items] \<and>
   rendered (snd (snd (reduce_salesinfo P \<lparr> context_key = k, context_values = items \<rparr> (w, [])))) =
   rendered (snd (snd (reduce_salesinfo P' \<lparr> context_key = k', context_values = items \<rparr> (w', [])))) \<and>
   rendered (snd (snd (andThen (reduce_salesinfo P \<lparr> context_key = k, context_values = items \<rparr>)
        (\<lambda>_. reduce_salesinfo P \<lparr> context_key = k, context_values = items \<rparr>) (w, [])))) =
     [csvContent items, csvContent items]"
proof -
  let ?ctx = "\<lparr> context_key = k, context_values = items \<rparr>"
  let ?ctx' = "\<lparr> context_key = k', context_values = items \<rparr>"
  obtain seg w1 where 1: "reduce_salesinfo P ?ctx (w, []) = (Inr (), (w1, seg))"
    and r1: "rendered seg = [csvContent items]"
    using reduce_salesinfo_trace [of P ?ctx w] by auto
  obtain seg' w1' where 2: "reduce_salesinfo P' ?ctx' (w', []) = (Inr (), (w1', seg'))"
    and r2: "rendered seg' = [csvContent items]"
    using reduce_salesinfo_trace [of P' ?ctx' w'] by auto
  obtain seg2 w2 where 3: "reduce_salesinfo P ?ctx (w1, seg) = (Inr (), (w2, seg @ seg2))"
    and r3: "rendered seg2 = [csvContent items]"
    using reduce_salesinfo_seg [of P ?ctx w1 seg] by auto
  from 1 2 3 r1 r2 r3 show ?thesis
    by (simp add: andThen_def rendered_append)
qed

theorem rendering_is_deterministic_witness:
  \<open>rendered (snd (snd (reduce_salesinfo mail_fails_for_12
      \<lparr> context_key = ''12'', context_values = [''Bolt Ltd,sales@bolt.example,INV1002,250.50''] \<rparr> ((), [])))) =
     [''Customer Name,Customer Email,Document Number,Sales Amount\<newline>Bolt Ltd,sales@bolt.example,INV1002,250.50'']\<close>
  using rendering_is_deterministic [of mail_fails_for_12 "''12''"
      "[''Bolt Ltd,sales@bolt.example,INV1002,250.50'']" "()" mail_fails_for_12 "''12''" "()"]
  by (simp add: csvContent_def header_def)

section \<open>The revision with the customer fallback\<close>

text \<open>
  C9. In version 1.1 map reads the variable \<^verbatim>\<open>soFields\<close>, which nothing defines,
  before it writes: for every row, on every platform, map ends in its error branch, the
  last event it leaves is the logged error, and it writes no pair. Run over any stream of
  rows, the stage writes nothing at all, so no group exists for reduce.
\<close>

theorem broken_revision_writes_nothing:
  "\<exists>segs w'. forEach (map_v1_1 P) rows (w, tr) = (Inr (), (w', tr @ concat segs)) \<and>
      list_all2 (\<lambda>row seg. writes seg = [] \<and> seg \<noteq> [] \<and> error_logged (last seg)) rows segs \<and>
      writes (concat segs) = []"
proof -
  obtain segs w' where run: "forEach (map_v1_1 P) rows (w, tr) = (Inr (), (w', tr @ concat segs))"
    and each: "list_all2 (\<lambda>row seg. writes seg = [] \<and> seg \<noteq> [] \<and> error_logged (last seg)) rows segs"
    using forEach_segs [of "map_v1_1 P" "\<lambda>row seg. writes seg = [] \<and> seg \<noteq> [] \<and> error_logged (last seg)" rows w tr]
      map_v1_1_seg [of P]
    by blast
  from each have "writes (concat segs) = []" by (rule writes_concat)
  with run each show ?thesis by blast
qed

theorem broken_revision_writes_nothing_witness:
  "writes (snd (snd (forEach (map_v1_1 mail_fails_for_12) [row_bolt, row_unassigned] ((), [])))) = [] \<and>
   last (snd (snd (forEach (map_v1_1 mail_fails_for_12) [row_bolt, row_unassigned] ((), [])))) =
     Log Error ''Map Error'' (Message (ReferenceError ''soFields'')) \<and>
   (\<exists>segs w'. forEach (map_v1_1 mail_fails_for_12) [row_bolt, row_unassigned] ((), []) =
        (Inr (), (w', [] @ concat segs)) \<and>
      list_all2 (\<lambda>row seg. writes seg = [] \<and> seg \<noteq> [] \<and> error_logged (last seg))
        [row_bolt, row_unassigned] segs \<and>
      writes (concat segs) = [])"
proof -
  have "writes (snd (snd (forEach (map_v1_1 mail_fails_for_12) [row_bolt, row_unassigned] ((), [])))) = [] \<and>
   last (snd (snd (forEach (map_v1_1 mail_fails_for_12) [row_bolt, row_unassigned] ((), [])))) =
     Log Error ''Map Error'' (Message (ReferenceError ''soFields''))"
    by code_simp
  with broken_revision_writes_nothing [of mail_fails_for_12 "[row_bolt, row_unassigned]" "()" "[]"]
  show ?thesis by blast
qed

section \<open>The accumulator\<close>

lemma map_of_add:
  "map_of (add (k, v) groups) =
     (map_of groups)(k \<mapsto> (case map_of groups k of None \<Rightarrow> [v] | Some vs \<Rightarrow> vs @ [v]))"
  by (induction groups) (auto simp: fun_eq_iff)

lemma keys_add: "set (map fst (add (k, v) groups)) = insert k (set (map fst groups))"
  by (induction "(k, v)" groups rule: add.induct) (simp_all add: insert_commute)

lemma distinct_add: "distinct (map fst groups) \<Longrightarrow> distinct (map fst (add (k, v) groups))"
proof (induction groups)
  case Nil
  then show ?case by simp
next
  case (Cons g groups)
  obtain k' vs where g: "g = (k', vs)" by (cases g)
  show ?case
  proof (cases "k = k'")
    case True
    with Cons.prems g show ?thesis by simp
  next
    case False
    have "set (map fst (add (k, v) groups)) = insert k (set (map fst groups))" by (rule keys_add)
    with Cons False g show ?thesis by simp
  qed
qed

lemma size_add:
  "sum_list (map (\<lambda>g. length (snd g)) (add (k, v) groups)) =
     Suc (sum_list (map (\<lambda>g. length (snd g)) groups))"
  by (induction groups) auto

lemma nonempty_add:
  "list_all (\<lambda>g. snd g \<noteq> []) groups \<Longrightarrow> list_all (\<lambda>g. snd g \<noteq> []) (add (k, v) groups)"
  by (induction groups) auto

lemma foldl_add:
  "distinct (map fst groups) \<Longrightarrow> list_all (\<lambda>g. snd g \<noteq> []) groups \<Longrightarrow>
   distinct (map fst (foldl (\<lambda>groups item. add item groups) groups items)) \<and>
   list_all (\<lambda>g. snd g \<noteq> []) (foldl (\<lambda>groups item. add item groups) groups items) \<and>
   sum_list (map (\<lambda>g. length (snd g)) (foldl (\<lambda>groups item. add item groups) groups items)) =
     sum_list (map (\<lambda>g. length (snd g)) groups) + length items \<and>
   (\<forall>k. map_of (foldl (\<lambda>groups item. add item groups) groups items) k =
     (case map_of groups k of
        None \<Rightarrow> (if lines_of k items = [] then None else Some (lines_of k items))
      | Some vs \<Rightarrow> Some (vs @ lines_of k items)))"
proof (induction items arbitrary: groups)
  case Nil
  then show ?case by (auto simp: lines_of_def split: option.splits)
next
  case (Cons item items)
  obtain k v where item: "item = (k, v)" by (cases item)
  have d: "distinct (map fst (add (k, v) groups))" using Cons.prems(1) by (rule distinct_add)
  have n: "list_all (\<lambda>g. snd g \<noteq> []) (add (k, v) groups)" using Cons.prems(2) by (rule nonempty_add)
  from Cons.IH [OF d n] item show ?case
    by (auto simp: size_add map_of_add lines_of_def split: option.splits)
qed

lemma accumulate_groups:
  "distinct (map fst (accumulate items)) \<and>
   sum_list (map (\<lambda>g. length (snd g)) (accumulate items)) = length items \<and>
   ((k, vs) \<in> set (accumulate items) \<longleftrightarrow> vs = lines_of k items \<and> vs \<noteq> [])"
proof -
  have f: "distinct (map fst (accumulate items)) \<and>
      list_all (\<lambda>g. snd g \<noteq> []) (accumulate items) \<and>
      sum_list (map (\<lambda>g. length (snd g)) (accumulate items)) = sum_list (map (\<lambda>g. length (snd g)) []) + length items \<and>
      (\<forall>k. map_of (accumulate items) k =
        (case map_of [] k of
           None \<Rightarrow> (if lines_of k items = [] then None else Some (lines_of k items))
         | Some vs \<Rightarrow> Some (vs @ lines_of k items)))"
    using foldl_add [of "[]" items] by (simp add: accumulate_def)
  then have d: "distinct (map fst (accumulate items))" by blast
  from f have m: "map_of (accumulate items) k =
      (if lines_of k items = [] then None else Some (lines_of k items))" by simp
  have "(k, vs) \<in> set (accumulate items) \<longleftrightarrow> map_of (accumulate items) k = Some vs"
    using d by simp
  with m have "(k, vs) \<in> set (accumulate items) \<longleftrightarrow> vs = lines_of k items \<and> vs \<noteq> []"
    by auto
  with f show ?thesis by simp
qed

lemma count_join:
  "\<forall>v \<in> set vs. c \<notin> set v \<Longrightarrow> vs \<noteq> [] \<Longrightarrow> Suc (count_list (join [c] vs) c) = length vs"
  by (induction "[c]" vs rule: join.induct) (simp_all add: count_list_0_iff)

lemma successes_set:
  "p \<in> set (successes pair_of rows) \<longleftrightarrow> (\<exists>row \<in> set rows. pair_of row = Inr p)"
  by (induction rows) (auto split: sum.splits)

lemma map_pair_line:
  "map_pair row = Inr (k, l) \<Longrightarrow> \<exists>n e d a. l = n @ '','' @ e @ '','' @ d @ '','' @ a"
  by (auto simp: map_pair_def bindE_def csvLine_def split: sum.splits)

lemma map_pair_v1_0_line:
  "map_pair_v1_0 row = Inr (k, l) \<Longrightarrow> \<exists>n e d a. l = n @ '','' @ e @ '','' @ d @ '','' @ a"
  by (auto simp: map_pair_v1_0_def bindE_def csvLine_def split: sum.splits)

lemma lines_of_subset: "l \<in> set (lines_of k items) \<Longrightarrow> (k, l) \<in> set items"
  by (auto simp: lines_of_def)

lemma map_stage_writes:
  "writes (snd (snd (forEach map_salesinfo rows (w, [])))) = successes map_pair rows"
  by (simp add: forEach_events [of map_salesinfo, OF map_salesinfo_run] writes_row_events)

lemma map_stage_writes_v1_0:
  "writes (snd (snd (forEach map_v1_0 rows (w, [])))) = successes map_pair_v1_0 rows"
  by (simp add: forEach_events [of map_v1_0, OF map_v1_0_run] writes_row_events)

lemma reduce_v1_0_trace:
  "\<exists>seg w'. reduce_v1_0 P ctx (w, []) = (Inr (), (w', seg)) \<and>
     (attempted csvContent_v1_0 ctx seg \<and> rendered seg = [csvContent_v1_0 (context_values ctx)])"
  using reduce_v1_0_seg [of P ctx w "[]"] by simp

lemma rendered_reduce_salesinfo:
  "rendered (snd (snd (reduce_salesinfo P \<lparr> context_key = key, context_values = vs \<rparr> (w, [])))) =
     [csvContent vs]"
  using reduce_salesinfo_trace [of P "\<lparr> context_key = key, context_values = vs \<rparr>" w] by auto

lemma rendered_reduce_v1_0:
  "rendered (snd (snd (reduce_v1_0 P \<lparr> context_key = key, context_values = vs \<rparr> (w, [])))) =
     [csvContent_v1_0 vs]"
  using reduce_v1_0_trace [of P "\<lparr> context_key = key, context_values = vs \<rparr>" w] by auto

lemma count_csvContent:
  assumes "\<forall>v \<in> set vs. CHR 0x0A \<notin> set v" and "vs \<noteq> []"
  shows "count_list (csvContent vs) (CHR 0x0A) = length vs"
proof -
  have "count_list header (CHR 0x0A) = 0" by (simp add: header_def)
  moreover have "Suc (count_list (join [CHR 0x0A] vs) (CHR 0x0A)) = length vs"
    using assms by (rule count_join)
  ultimately show ?thesis by (simp add: csvContent_def)
qed

section \<open>From rows to reports\<close>

text \<open>
  C6. Take any stream of rows through map and the accumulator. Every group holds the
  lines written under its key in the order in which their rows arrived, whatever rows of
  other groups or failing rows came between them; every line is four fields joined by
  commas; and what reduce renders for the group, under any key and on any platform, is
  the fixed header row followed by these lines in that order, joined by newlines. The
  header is \<^verbatim>\<open>Customer Name,Customer Email,Document Number,Sales Amount\<close> in
  the first file and has \<^verbatim>\<open>Sales Order Document Number\<close> as its third column
  in version 1.0. A line is one element of this join.
\<close>

theorem rendered_in_arrival_order:
  "((k, vs) \<in> set (accumulate (writes (snd (snd (forEach map_salesinfo rows (w, [])))))) \<longrightarrow>
      vs = lines_of k (successes map_pair rows) \<and>
      (\<forall>l \<in> set vs. \<exists>n e d a. l = n @ '','' @ e @ '','' @ d @ '','' @ a) \<and>
      rendered (snd (snd (reduce_salesinfo P \<lparr> context_key = key, context_values = vs \<rparr> (w', [])))) =
        [''Customer Name,Customer Email,Document Number,Sales Amount'' @ ''\<newline>'' @ join ''\<newline>'' vs]) \<and>
   ((k, vs) \<in> set (accumulate (writes (snd (snd (forEach map_v1_0 rows (w, [])))))) \<longrightarrow>
      vs = lines_of k (successes map_pair_v1_0 rows) \<and>
      (\<forall>l \<in> set vs. \<exists>n e d a. l = n @ '','' @ e @ '','' @ d @ '','' @ a) \<and>
      rendered (snd (snd (reduce_v1_0 P \<lparr> context_key = key, context_values = vs \<rparr> (w', [])))) =
        [''Customer Name,Customer Email,Sales Order Document Number,Sales Amount'' @ ''\<newline>'' @ join ''\<newline>'' vs])"
proof (intro conjI impI)
  assume "(k, vs) \<in> set (accumulate (writes (snd (snd (forEach map_salesinfo rows (w, []))))))"
  then have g: "(k, vs) \<in> set (accumulate (successes map_pair rows))"
    by (simp add: map_stage_writes)
  then show vs: "vs = lines_of k (successes map_pair rows)"
    using accumulate_groups [of "successes map_pair rows" k vs] by simp
  show "\<forall>l \<in> set vs. \<exists>n e d a. l = n @ '','' @ e @ '','' @ d @ '','' @ a"
  proof
    fix l assume "l \<in> set vs"
    with vs have "(k, l) \<in> set (successes map_pair rows)" by (simp add: lines_of_subset)
    then obtain row where "map_pair row = Inr (k, l)" by (auto simp: successes_set)
    then show "\<exists>n e d a. l = n @ '','' @ e @ '','' @ d @ '','' @ a" by (rule map_pair_line)
  qed
  show "rendered (snd (snd (reduce_salesinfo P \<lparr> context_key = key, context_values = vs \<rparr> (w', [])))) =
        [''Customer Name,Customer Email,Document Number,Sales Amount'' @ ''\<newline>'' @ join ''\<newline>'' vs]"
    by (simp add: rendered_reduce_salesinfo csvContent_def header_def)
next
  assume "(k, vs) \<in> set (accumulate (writes (snd (snd (forEach map_v1_0 rows (w, []))))))"
  then have g: "(k, vs) \<in> set (accumulate (successes map_pair_v1_0 rows))"
    by (simp add: map_stage_writes_v1_0)
  then show vs: "vs = lines_of k (successes map_pair_v1_0 rows)"
    using accumulate_groups [of "successes map_pair_v1_0 rows" k vs] by simp
  show "\<forall>l \<in> set vs. \<exists>n e d a. l = n @ '','' @ e @ '','' @ d @ '','' @ a"
  proof
    fix l assume "l \<in> set vs"
    with vs have "(k, l) \<in> set (successes map_pair_v1_0 rows)" by (simp add: lines_of_subset)
    then obtain row where "map_pair_v1_0 row = Inr (k, l)" by (auto simp: successes_set)
    then show "\<exists>n e d a. l = n @ '','' @ e @ '','' @ d @ '','' @ a" by (rule map_pair_v1_0_line)
  qed
  show "rendered (snd (snd (reduce_v1_0 P \<lparr> context_key = key, context_values = vs \<rparr> (w', [])))) =
        [''Customer Name,Customer Email,Sales Order Document Number,Sales Amount'' @ ''\<newline>'' @ join ''\<newline>'' vs]"
    by (simp add: rendered_reduce_v1_0 csvContent_v1_0_def header_v1_0_def)
qed

theorem rendered_in_arrival_order_witness:
  \<open>accumulate (writes (snd (snd (forEach map_salesinfo
       [row_bolt, NotJSON, row_unassigned, row_acme] ((), []))))) =
     [(JStr ''12'', [''Bolt Ltd,sales@bolt.example,INV1002,250.50'',
                     ''"Acme, Inc.",info@acme.example,INV1001,100.00'']),
      (JStr ''Unassigned'', [''Cole,No Email,INV1003,75.00''])] \<and>
   lines_of (JStr ''12'') (successes map_pair [row_bolt, NotJSON, row_unassigned, row_acme]) =
     [''Bolt Ltd,sales@bolt.example,INV1002,250.50'',
      ''"Acme, Inc.",info@acme.example,INV1001,100.00''] \<and>
   rendered (snd (snd (reduce_salesinfo mail_fails_for_12
       \<lparr> context_key = ''12'',
         context_values = [''Bolt Ltd,sales@bolt.example,INV1002,250.50'',
                           ''"Acme, Inc.",info@acme.example,INV1001,100.00''] \<rparr> ((), [])))) =
     [''Customer Name,Customer Email,Document Number,Sales Amount\<newline>Bolt Ltd,sales@bolt.example,INV1002,250.50\<newline>"Acme, Inc.",info@acme.example,INV1001,100.00'']\<close>
proof -
  let ?rows = "[row_bolt, NotJSON, row_unassigned, row_acme]"
  let ?vs = \<open>[''Bolt Ltd,sales@bolt.example,INV1002,250.50'',
              ''"Acme, Inc.",info@acme.example,INV1001,100.00'']\<close>
  have acc: \<open>accumulate (writes (snd (snd (forEach map_salesinfo ?rows ((), []))))) =
     [(JStr ''12'', ?vs), (JStr ''Unassigned'', [''Cole,No Email,INV1003,75.00''])]\<close>
    by code_simp
  then have mem: "(JStr ''12'', ?vs) \<in> set (accumulate (writes (snd (snd (forEach map_salesinfo ?rows ((), []))))))"
    by simp
  from rendered_in_arrival_order [where k = "JStr ''12''" and vs = ?vs and rows = ?rows and w = "()"
      and P = mail_fails_for_12 and key = "''12''" and w' = "()", THEN conjunct1, rule_format, OF mem]
  have "lines_of (JStr ''12'') (successes map_pair ?rows) = ?vs"
    and "rendered (snd (snd (reduce_salesinfo mail_fails_for_12
       \<lparr> context_key = ''12'', context_values = ?vs \<rparr> ((), [])))) =
        [''Customer Name,Customer Email,Document Number,Sales Amount'' @ ''\<newline>'' @ join ''\<newline>'' ?vs]"
    by (blast intro: sym)+
  with acc show ?thesis by simp
qed

text \<open>
  C10. Take any stream of rows through map and the accumulator. Map writes exactly one
  pair for each row that normalizes and none for the others; the groups have distinct
  keys, and the group of a key holds exactly the lines written under that key, so every
  written line sits in one group; and the numbers of lines of all groups add up to the
  number of rows that normalized. A line here is one element of the join that reduce
  renders; when no written line contains a newline character, the same count is the
  number of newline characters in the rendered texts, one for each line after the header.
\<close>

theorem rows_are_conserved:
  assumes "ws = writes (snd (snd (forEach map_salesinfo rows (w, []))))"
    and "groups = accumulate ws"
  shows "ws = successes map_pair rows \<and>
         distinct (map fst groups) \<and>
         (\<forall>k vs. (k, vs) \<in> set groups \<longleftrightarrow> vs = lines_of k ws \<and> vs \<noteq> []) \<and>
         sum_list (map (\<lambda>g. length (snd g)) groups) = length (successes map_pair rows) \<and>
         ((\<forall>p \<in> set ws. CHR 0x0A \<notin> set (snd p)) \<longrightarrow>
            sum_list (map (\<lambda>g. count_list (csvContent (snd g)) (CHR 0x0A)) groups) =
              length (successes map_pair rows))"
proof -
  have ws: "ws = successes map_pair rows" using assms(1) by (simp add: map_stage_writes)
  have d: "distinct (map fst groups)" using assms(2) accumulate_groups [of ws] by simp
  have m: "(k, vs) \<in> set groups \<longleftrightarrow> vs = lines_of k ws \<and> vs \<noteq> []" for k vs
    using assms(2) accumulate_groups [of ws k vs] by simp
  have s: "sum_list (map (\<lambda>g. length (snd g)) groups) = length ws"
    using assms(2) accumulate_groups [of ws] by simp
  have c: "sum_list (map (\<lambda>g. count_list (csvContent (snd g)) (CHR 0x0A)) groups) = length ws"
    if nl: "\<forall>p \<in> set ws. CHR 0x0A \<notin> set (snd p)"
  proof -
    have eq: "count_list (csvContent (snd g)) (CHR 0x0A) = length (snd g)" if "g \<in> set groups" for g
    proof (rule count_csvContent)
      obtain k vs where g: "g = (k, vs)" by (cases g)
      with that m have vs: "vs = lines_of k ws" "vs \<noteq> []" by auto
      show "snd g \<noteq> []" using g vs by simp
      show "\<forall>v \<in> set (snd g). CHR 0x0A \<notin> set v"
      proof
        fix v assume "v \<in> set (snd g)"
        with g vs have "(k, v) \<in> set ws" by (simp add: lines_of_subset)
        with nl show "CHR 0x0A \<notin> set v" by auto
      qed
    qed
    have "map (\<lambda>g. count_list (csvContent (snd g)) (CHR 0x0A)) groups =
        map (\<lambda>g. length (snd g)) groups"
      by (rule map_cong) (simp_all add: eq)
    then have "sum_list (map (\<lambda>g. count_list (csvContent (snd g)) (CHR 0x0A)) groups) =
        sum_list (map (\<lambda>g. length (snd g)) groups)"
      by (rule arg_cong)
    also have "\<dots> = length ws" by (rule s)
    finally show ?thesis .
  qed
  from ws d m s c show ?thesis by simp
qed

theorem rows_are_conserved_witness:
  "length (successes map_pair [row_bolt, NotJSON, row_unassigned, row_acme]) = 3 \<and>
   sum_list (map (\<lambda>g. length (snd g))
     (accumulate (writes (snd (snd (forEach map_salesinfo
        [row_bolt, NotJSON, row_unassigned, row_acme] ((), []))))))) = 3 \<and>
   sum_list (map (\<lambda>g. count_list (csvContent (snd g)) (CHR 0x0A))
     (accumulate (writes (snd (snd (forEach map_salesinfo
        [row_bolt, NotJSON, row_unassigned, row_acme] ((), []))))))) = 3"
proof -
  let ?rows = "[row_bolt, NotJSON, row_unassigned, row_acme]"
  let ?ws = "writes (snd (snd (forEach map_salesinfo ?rows ((), []))))"
  have len: "length (successes map_pair ?rows) = 3" by code_simp
  have nl: "\<forall>p \<in> set ?ws. CHR 0x0A \<notin> set (snd p)" by code_simp
  note conserved = rows_are_conserved [where ws = ?ws and rows = ?rows and w = "()", OF refl refl]
  note entries = conserved [THEN conjunct2, THEN conjunct2, THEN conjunct2, THEN conjunct1]
  note lines = conserved [THEN conjunct2, THEN conjunct2, THEN conjunct2, THEN conjunct2, THEN mp, OF nl]
  show ?thesis unfolding entries lines len by simp
qed

end
